theory Spec2Isabelle
  imports Main "HOL-Library.Word" "HOL-Library.AList"
begin

section \<open>CAN bootloader protocol of mrs\_bl\_protocol.py\<close>

text \<open>
  A shallow embedding of \<^verbatim>\<open>src/mrs_bl_protocol.py\<close>. Python exceptions are values of
  the type \<open>error\<close> and every fallible function returns \<open>error + 'a\<close>. The CAN bus and
  the clock are an explicit \<open>world\<close> that the methods of \<^verbatim>\<open>Interface\<close> and
  \<^verbatim>\<open>Module\<close> pass along. A method whose Python name starts with an underscore
  (\<^verbatim>\<open>_cmd\<close>, \<^verbatim>\<open>_select\<close>, ...) carries the prefix \<open>u_\<close> here, since an
  Isabelle name starts with a letter.
\<close>

subsection \<open>Bytes, exceptions and CAN frames\<close>

type_synonym byte = "8 word"

text \<open>A Python \<^verbatim>\<open>str\<close> is its list of code points.\<close>

type_synonym pystr = "nat list"

text \<open>
  \<^verbatim>\<open>MessageError\<close> carries which raise statement produced it (the source gives each a
  message of its own): the three checks of \<^verbatim>\<open>RXMessage.__init__\<close>, the extra check of
  \<^verbatim>\<open>MSG_erase_done.__init__\<close>, and the re-raise of \<^verbatim>\<open>Interface.scan\<close>.
\<close>

datatype check = Check_id | Check_length | Check_field nat | Check_status | Scan_traffic

datatype error =
    MessageError check
  | ModuleError
  | RuntimeError
  | NameError
  | StructError
  | KeyError
  | IndexError
  | TypeError
  | ValueError
  | UnicodeEncodeError
  | UnicodeDecodeError

text \<open>
  A \<^verbatim>\<open>can.Message\<close>: the fields the source reads. A frame built by the source with
  \<^verbatim>\<open>can.Message(arbitration_id=..., data=...)\<close> has \<open>dlc\<close> equal to the length of its data.
\<close>

record frame =
  arbitration_id :: nat
  dlc :: nat
  data :: "byte list"

definition Message :: "nat \<Rightarrow> byte list \<Rightarrow> frame" where
  "Message i d = \<lparr>arbitration_id = i, dlc = length d, data = d\<rparr>"

definition ACK_ID :: nat where "ACK_ID = 0x1ffffff0"
definition CMD_ID :: nat where "CMD_ID = 0x1ffffff1"
definition RSP_ID :: nat where "RSP_ID = 0x1ffffff2"
definition SREC_ID :: nat where "SREC_ID = 0x1ffffff3"
definition DATA_ID :: nat where "DATA_ID = 0x1ffffff4"
definition EEPROM_ID :: nat where "EEPROM_ID = 0x1ffffff5"
definition CONSOLE_ID :: nat where "CONSOLE_ID = 0x1ffffffe"

definition RECEIVE_FILTER :: "nat list" where
  "RECEIVE_FILTER = [ACK_ID, RSP_ID, DATA_ID, CONSOLE_ID]"

subsection \<open>The struct module: formats, calcsize, pack, unpack\<close>

text \<open>
  A format string is the list of its items: \<^verbatim>\<open>B\<close>, \<^verbatim>\<open>H\<close>, \<^verbatim>\<open>I\<close> (unsigned
  integers of 1, 2 and 4 bytes), \<^verbatim>\<open>Ns\<close> (one bytes object of N bytes) and \<^verbatim>\<open>c\<close> (one
  bytes object of length 1). A repeat count as in \<^verbatim>\<open>3B\<close> or \<^verbatim>\<open>3c\<close> is that many
  items. Multi-byte integers are big-endian (every format with \<^verbatim>\<open>H\<close> or \<^verbatim>\<open>I\<close> in the
  source starts with \<^verbatim>\<open>>\<close>); the formats without a prefix hold only \<^verbatim>\<open>B\<close> and
  \<^verbatim>\<open>s\<close> items, which need no alignment.
\<close>

datatype fmt_item = Fmt_B | Fmt_H | Fmt_I | Fmt_s nat | Fmt_c

type_synonym fmt = "fmt_item list"

datatype val = VInt int | VBytes "byte list"

fun item_size :: "fmt_item \<Rightarrow> nat" where
  "item_size Fmt_B = 1"
| "item_size Fmt_H = 2"
| "item_size Fmt_I = 4"
| "item_size (Fmt_s n) = n"
| "item_size Fmt_c = 1"

definition calcsize :: "fmt \<Rightarrow> nat" where
  "calcsize f = sum_list (map item_size f)"

text \<open>The unsigned big-endian value of a byte string.\<close>

definition be_int :: "byte list \<Rightarrow> int" where
  "be_int bs = foldl (\<lambda>a b. a * 256 + uint b) 0 bs"

text \<open>The \<open>n\<close> big-endian bytes of \<open>v\<close>, most significant first.\<close>

fun be_bytes :: "nat \<Rightarrow> int \<Rightarrow> byte list" where
  "be_bytes 0 v = []"
| "be_bytes (Suc n) v = be_bytes n (v div 256) @ [word_of_int v]"

fun unpack_item :: "fmt_item \<Rightarrow> byte list \<Rightarrow> val" where
  "unpack_item (Fmt_s n) bs = VBytes bs"
| "unpack_item Fmt_c bs = VBytes bs"
| "unpack_item it bs = VInt (be_int bs)"

fun unpack_items :: "fmt \<Rightarrow> byte list \<Rightarrow> val list" where
  "unpack_items [] bs = []"
| "unpack_items (it # its) bs =
     unpack_item it (take (item_size it) bs) # unpack_items its (drop (item_size it) bs)"

text \<open>\<^verbatim>\<open>struct.unpack\<close> raises \<^verbatim>\<open>struct.error\<close> unless the buffer has the format's size.\<close>

definition unpack :: "fmt \<Rightarrow> byte list \<Rightarrow> error + val list" where
  "unpack f bs = (if length bs \<noteq> calcsize f then Inl StructError else Inr (unpack_items f bs))"

text \<open>
  \<^verbatim>\<open>struct.pack\<close>: one argument per item, an integer in the item's range or a bytes
  object; anything else is \<^verbatim>\<open>struct.error\<close>. An \<^verbatim>\<open>Ns\<close> item truncates or pads its
  argument with NUL bytes to N bytes.
\<close>

fun pack_item :: "fmt_item \<Rightarrow> val \<Rightarrow> error + byte list" where
  "pack_item Fmt_B (VInt v) = (if 0 \<le> v \<and> v < 2 ^ 8 then Inr (be_bytes 1 v) else Inl StructError)"
| "pack_item Fmt_H (VInt v) = (if 0 \<le> v \<and> v < 2 ^ 16 then Inr (be_bytes 2 v) else Inl StructError)"
| "pack_item Fmt_I (VInt v) = (if 0 \<le> v \<and> v < 2 ^ 32 then Inr (be_bytes 4 v) else Inl StructError)"
| "pack_item (Fmt_s n) (VBytes bs) = Inr (take n bs @ replicate (n - length bs) 0)"
| "pack_item Fmt_c (VBytes bs) = (if length bs = 1 then Inr bs else Inl StructError)"
| "pack_item it v = Inl StructError"

fun pack_items :: "fmt \<Rightarrow> val list \<Rightarrow> error + byte list" where
  "pack_items [] [] = Inr []"
| "pack_items (it # its) (v # vs) =
     (case pack_item it v of
        Inl e \<Rightarrow> Inl e
      | Inr b \<Rightarrow> (case pack_items its vs of Inl e \<Rightarrow> Inl e | Inr bs \<Rightarrow> Inr (b @ bs)))"
| "pack_items its vs = Inl StructError"

definition pack :: "fmt \<Rightarrow> val list \<Rightarrow> error + byte list" where
  "pack f args = (if length args \<noteq> length f then Inl StructError else pack_items f args)"

subsection \<open>Messages that are sent\<close>

text \<open>\<^verbatim>\<open>TXMessage.__init__\<close>: pack the arguments with the class's format.\<close>

definition TXMessage :: "fmt \<Rightarrow> nat \<Rightarrow> val list \<Rightarrow> error + frame" where
  "TXMessage format message_id args =
     (case pack format args of Inl e \<Rightarrow> Inl e | Inr d \<Rightarrow> Inr (Message message_id d))"

definition MSG_ping :: "error + frame" where
  "MSG_ping = TXMessage [Fmt_H] CMD_ID [VInt 0]"

definition MSG_select :: "int \<Rightarrow> error + frame" where
  "MSG_select module_id = TXMessage [Fmt_H, Fmt_I] CMD_ID [VInt 0x2010, VInt module_id]"

definition MSG_read_eeprom :: "int \<Rightarrow> int \<Rightarrow> error + frame" where
  "MSG_read_eeprom address count =
     TXMessage [Fmt_H, Fmt_H, Fmt_B] CMD_ID [VInt 0x2003, VInt address, VInt count]"

text \<open>
  The format is \<^verbatim>\<open>'>H3c'\<close>, four items, and the constructor passes two arguments: the
  opcode and one bytes object of length 3.
\<close>

definition MSG_write_eeprom :: "error + frame" where
  "MSG_write_eeprom =
     TXMessage [Fmt_H, Fmt_c, Fmt_c, Fmt_c] CMD_ID [VInt 0x2011, VBytes [0xf3, 0x33, 0xaf]]"

definition MSG_write_eeprom_data :: "int \<Rightarrow> byte list \<Rightarrow> error + frame" where
  "MSG_write_eeprom_data address d =
     (case pack [Fmt_H] [VInt address] of
        Inl e \<Rightarrow> Inl e
      | Inr p \<Rightarrow> Inr (Message EEPROM_ID (p @ d)))"

definition MSG_close_eeprom :: "error + frame" where
  "MSG_close_eeprom = TXMessage [Fmt_H] CMD_ID [VInt 0x2002]"

definition MSG_program :: "error + frame" where
  "MSG_program = TXMessage [Fmt_H] CMD_ID [VInt 0x2000]"

definition MSG_erase :: "error + frame" where
  "MSG_erase = TXMessage [Fmt_H] CMD_ID [VInt 0x0202]"

definition MSG_srecord :: "byte list \<Rightarrow> frame" where
  "MSG_srecord d = Message SREC_ID d"

subsection \<open>Messages that are received\<close>

text \<open>The subclasses of \<^verbatim>\<open>RXMessage\<close>, each with its format, filter and expected ID.\<close>

datatype rx_kind =
    MSG_ack
  | MSG_selected
  | MSG_eeprom_open
  | MSG_eeprom_write_ok
  | MSG_eeprom_closed
  | MSG_program_nak
  | MSG_program_ack
  | MSG_progress
  | MSG_erase_done
  | MSG_srec_start_ok
  | MSG_srec_cont_ok
  | MSG_srec_end_ok
  | MSG_srecords_done
  | MSG_no_program

fun rx_format :: "rx_kind \<Rightarrow> fmt" where
  "rx_format MSG_ack = [Fmt_B, Fmt_I, Fmt_B, Fmt_H]"
| "rx_format MSG_selected = [Fmt_H, Fmt_I, Fmt_H]"
| "rx_format MSG_eeprom_open = [Fmt_H, Fmt_s 3]"
| "rx_format MSG_eeprom_write_ok = [Fmt_H, Fmt_s 3]"
| "rx_format MSG_eeprom_closed = [Fmt_H, Fmt_s 3]"
| "rx_format MSG_program_nak = [Fmt_H, Fmt_I, Fmt_H]"
| "rx_format MSG_program_ack = [Fmt_H, Fmt_I, Fmt_H]"
| "rx_format MSG_progress = [Fmt_B, Fmt_B, Fmt_B, Fmt_B]"
| "rx_format MSG_erase_done = [Fmt_H, Fmt_B, Fmt_B]"
| "rx_format MSG_srec_start_ok = [Fmt_s 5]"
| "rx_format MSG_srec_cont_ok = [Fmt_s 2]"
| "rx_format MSG_srec_end_ok = [Fmt_s 3]"
| "rx_format MSG_srecords_done = [Fmt_s 3]"
| "rx_format MSG_no_program = [Fmt_s 5]"

fun rx_filter :: "rx_kind \<Rightarrow> (bool \<times> val) list" where
  "rx_filter MSG_ack = [(False, VInt 0), (False, VInt 0), (False, VInt 0), (False, VInt 0)]"
| "rx_filter MSG_selected = [(True, VInt 0x2110), (False, VInt 0), (False, VInt 0)]"
| "rx_filter MSG_eeprom_open = [(True, VInt 0x2111), (True, VBytes [0x01, 0x00, 0x00])]"
| "rx_filter MSG_eeprom_write_ok = [(True, VInt 0x20e8), (True, VBytes [0x00, 0x00, 0x00])]"
| "rx_filter MSG_eeprom_closed = [(True, VInt 0x20f0), (True, VBytes [0x02, 0x00, 0x00])]"
| "rx_filter MSG_program_nak = [(True, VInt 0x2fff), (False, VInt 0), (False, VInt 0)]"
| "rx_filter MSG_program_ack = [(True, VInt 0x2100), (False, VInt 0), (False, VInt 0)]"
| "rx_filter MSG_progress = [(True, VInt 0), (False, VInt 0), (False, VInt 0), (True, VInt 0)]"
| "rx_filter MSG_erase_done = [(True, VInt 0x0000), (False, VInt 0x00), (True, VInt 0x01)]"
| "rx_filter MSG_srec_start_ok = [(True, VBytes [0x00, 0x01, 0x01, 0x01, 0x01])]"
| "rx_filter MSG_srec_cont_ok = [(True, VBytes [0x00, 0x01])]"
| "rx_filter MSG_srec_end_ok = [(True, VBytes [0x00, 0x00, 0x01])]"
| "rx_filter MSG_srecords_done = [(True, VBytes [0x00, 0x12, 0x34])]"
| "rx_filter MSG_no_program = [(True, VBytes [0x00, 0x02, 0x02, 0x02, 0x02])]"

fun rx_expected_id :: "rx_kind \<Rightarrow> nat" where
  "rx_expected_id MSG_ack = ACK_ID"
| "rx_expected_id k = RSP_ID"

text \<open>
  The loop over \<^verbatim>\<open>enumerate(self._filter)\<close>: the field is read only when the entry is
  flagged, and reading past the unpacked values is an \<^verbatim>\<open>IndexError\<close>.
\<close>

fun check_filter :: "nat \<Rightarrow> (bool \<times> val) list \<Rightarrow> val list \<Rightarrow> error + unit" where
  "check_filter index [] values = Inr ()"
| "check_filter index ((chk, v) # rest) values =
     (if chk then
        (if index < length values then
           (if v \<noteq> values ! index then Inl (MessageError (Check_field index))
            else check_filter (Suc index) rest values)
         else Inl IndexError)
      else check_filter (Suc index) rest values)"

text \<open>\<^verbatim>\<open>RXMessage.__init__\<close>; the result is \<^verbatim>\<open>self._values\<close>.\<close>

definition RXMessage :: "rx_kind \<Rightarrow> nat \<Rightarrow> frame \<Rightarrow> error + val list" where
  "RXMessage k expected_id raw =
     (if arbitration_id raw \<noteq> expected_id then Inl (MessageError Check_id)
      else if dlc raw \<noteq> calcsize (rx_format k) then Inl (MessageError Check_length)
      else (case unpack (rx_format k) (data raw) of
              Inl e \<Rightarrow> Inl e
            | Inr values \<Rightarrow>
                (case check_filter 0 (rx_filter k) values of
                   Inl e \<Rightarrow> Inl e
                 | Inr u \<Rightarrow> Inr values)))"

text \<open>
  The constructor of each subclass: all call \<^verbatim>\<open>super().__init__\<close> with their expected
  ID; \<^verbatim>\<open>MSG_erase_done\<close> then also requires \<^verbatim>\<open>self._values[1]\<close> to be 0 or 0xff.
\<close>

definition rx_init :: "rx_kind \<Rightarrow> frame \<Rightarrow> error + val list" where
  "rx_init k raw =
     (case RXMessage k (rx_expected_id k) raw of
        Inl e \<Rightarrow> Inl e
      | Inr values \<Rightarrow>
          (if k = MSG_erase_done then
             (if 1 < length values then
                (if values ! 1 \<notin> set [VInt 0, VInt 0xff] then Inl (MessageError Check_status)
                 else Inr values)
              else Inl IndexError)
           else Inr values))"

text \<open>\<^verbatim>\<open>except MessageError: raise ModuleError(...)\<close>: other exceptions pass through.\<close>

fun is_MessageError :: "error \<Rightarrow> bool" where
  "is_MessageError (MessageError c) = True"
| "is_MessageError e = False"

definition promote :: "error \<Rightarrow> error" where
  "promote e = (if is_MessageError e then ModuleError else e)"

text \<open>
  \<^verbatim>\<open>MSG_ack.__init__\<close>: the four unpacked values, and the reason and status looked up
  in \<^verbatim>\<open>REASON_MAP\<close> and \<^verbatim>\<open>STATUS_MAP\<close> (\<^verbatim>\<open>'unknown'\<close> on a \<^verbatim>\<open>KeyError\<close>).
\<close>

definition REASON_MAP :: "(val \<times> string) list" where
  "REASON_MAP =
     [(VInt 0x00, ''power-on''),
      (VInt 0x01, ''reset''),
      (VInt 0x11, ''low-voltage reset''),
      (VInt 0x21, ''clock lost''),
      (VInt 0x31, ''address error''),
      (VInt 0x41, ''illegal opcode''),
      (VInt 0x51, ''watchdog timeout'')]"

definition STATUS_MAP :: "(val \<times> string) list" where
  "STATUS_MAP = [(VInt 0, ''OK''), (VInt 4, ''NO PROG'')]"

record ack =
  reason_code :: val
  module_id :: val
  status_code :: val
  sw_version :: val
  reason :: string
  status :: string

definition ack_init :: "frame \<Rightarrow> error + ack" where
  "ack_init raw =
     (case rx_init MSG_ack raw of
        Inl e \<Rightarrow> Inl e
      | Inr values \<Rightarrow>
          (case values of
             [rc, mid, sc, sv] \<Rightarrow>
               Inr \<lparr>reason_code = rc, module_id = mid, status_code = sc, sw_version = sv,
                    reason = (case map_of REASON_MAP rc of Some r \<Rightarrow> r | None \<Rightarrow> ''unknown''),
                    status = (case map_of STATUS_MAP sc of Some r \<Rightarrow> r | None \<Rightarrow> ''unknown'')\<rparr>
           | _ \<Rightarrow> Inl ValueError))"

text \<open>\<^verbatim>\<open>MSG_selected.__init__\<close>: the pair \<^verbatim>\<open>(module_id, sw_version)\<close>.\<close>

definition selected_init :: "frame \<Rightarrow> error + (val \<times> val)" where
  "selected_init raw =
     (case rx_init MSG_selected raw of
        Inl e \<Rightarrow> Inl e
      | Inr values \<Rightarrow>
          (case values of [op, mid, sv] \<Rightarrow> Inr (mid, sv) | _ \<Rightarrow> Inl ValueError))"

subsection \<open>The bus: Interface.send and Interface.recv\<close>

text \<open>
  The world outside the program. \<open>bus\<close> is what the CAN bus will deliver: a frame, or
  \<open>Quiet\<close> when the deadline of the pending \<^verbatim>\<open>Interface.recv\<close> passes with no frame; a
  bus with nothing left stays quiet. \<open>clock\<close> holds the answers to the successive tests
  \<^verbatim>\<open>time.time() < scan_end_time\<close> of \<^verbatim>\<open>Interface.scan\<close> (none left: the scan time is
  over). \<open>log\<close> records, in order, every frame sent and every result of
  \<^verbatim>\<open>Interface.recv\<close>.
\<close>

datatype bus_event = Arrives frame | Quiet

datatype event = Sent frame | Received "frame option"

record world =
  bus :: "bus_event list"
  clock :: "bool list"
  log :: "event list"

text \<open>
  The loop of \<^verbatim>\<open>Interface.recv\<close>: frames whose ID is not in \<^verbatim>\<open>RECEIVE_FILTER\<close> are
  dropped; the result is \<^verbatim>\<open>None\<close> when the deadline passes.
\<close>

fun bus_recv :: "bus_event list \<Rightarrow> frame option \<times> bus_event list" where
  "bus_recv [] = (None, [])"
| "bus_recv (Quiet # es) = (None, es)"
| "bus_recv (Arrives msg # es) =
     (if arbitration_id msg \<in> set RECEIVE_FILTER then (Some msg, es) else bus_recv es)"

definition recv :: "world \<Rightarrow> frame option \<times> world" where
  "recv w = (case bus_recv (bus w) of (r, es) \<Rightarrow> (r, w\<lparr>bus := es, log := log w @ [Received r]\<rparr>))"

definition send :: "frame \<Rightarrow> world \<Rightarrow> world" where
  "send message w = w\<lparr>log := log w @ [Sent message]\<rparr>"

subsection \<open>Module: commands, select, EEPROM read and write\<close>

record module =
  u_module_id :: int
  u_verbose :: bool

text \<open>\<^verbatim>\<open>Module._cmd\<close>: send a message, wait for a response.\<close>

definition u_cmd :: "frame \<Rightarrow> rx_kind option \<Rightarrow> world \<Rightarrow> (error + frame) \<times> world" where
  "u_cmd message reply_class w =
     (case recv (send message w) of
        (None, w') \<Rightarrow> (Inl ModuleError, w')
      | (Some rsp, w') \<Rightarrow>
          (case reply_class of
             None \<Rightarrow> (Inr rsp, w')
           | Some k \<Rightarrow>
               (case rx_init k rsp of
                  Inl e \<Rightarrow> (Inl (promote e), w')
                | Inr values \<Rightarrow> (Inr rsp, w'))))"

text \<open>
  \<^verbatim>\<open>Module._select\<close>. The name \<^verbatim>\<open>CanError\<close> in its \<^verbatim>\<open>raise\<close> statement is bound
  nowhere in the module (which imports \<^verbatim>\<open>can\<close>, \<^verbatim>\<open>struct\<close> and \<^verbatim>\<open>time\<close> and defines
  \<^verbatim>\<open>MessageError\<close> and \<^verbatim>\<open>ModuleError\<close>), so evaluating it raises \<^verbatim>\<open>NameError\<close>.
\<close>

definition u_select :: "module \<Rightarrow> world \<Rightarrow> (error + val) \<times> world" where
  "u_select m w =
     (case MSG_select (u_module_id m) of
        Inl e \<Rightarrow> (Inl e, w)
      | Inr msg \<Rightarrow>
          (case u_cmd msg None w of
             (Inl e, w') \<Rightarrow> (Inl e, w')
           | (Inr rsp, w') \<Rightarrow>
               (case selected_init rsp of
                  Inl e \<Rightarrow> (Inl e, w')
                | Inr (mid, sv) \<Rightarrow>
                    (if mid \<noteq> VInt (u_module_id m) then (Inl NameError, w')
                     else (Inr sv, w')))))"

text \<open>The \<^verbatim>\<open>while length > 0\<close> loop of \<^verbatim>\<open>Module._read_eeprom\<close>.\<close>

function read_loop :: "int \<Rightarrow> int \<Rightarrow> byte list \<Rightarrow> world \<Rightarrow> (error + byte list) \<times> world" where
  "read_loop address len result w =
     (if len > 0 then
        (case MSG_read_eeprom address (if len \<le> 8 then len else 8) of
           Inl e \<Rightarrow> (Inl e, w)
         | Inr msg \<Rightarrow>
             (case u_cmd msg None w of
                (Inl e, w') \<Rightarrow> (Inl e, w')
              | (Inr rsp, w') \<Rightarrow>
                  (if arbitration_id rsp \<noteq> DATA_ID then (Inl ModuleError, w')
                   else read_loop (address + (if len \<le> 8 then len else 8))
                          (len - (if len \<le> 8 then len else 8)) (result @ data rsp) w')))
      else (Inr result, w))"
  by pat_completeness auto
termination
  by (relation "measure (\<lambda>(address, len, result, w). nat len)") auto

declare read_loop.simps [simp del]

definition u_read_eeprom :: "module \<Rightarrow> int \<Rightarrow> int \<Rightarrow> world \<Rightarrow> (error + byte list) \<times> world" where
  "u_read_eeprom m address len w =
     (case u_select m w of
        (Inl e, w') \<Rightarrow> (Inl e, w')
      | (Inr sv, w') \<Rightarrow> read_loop address len [] w')"

text \<open>
  The \<^verbatim>\<open>while len(data) > 0\<close> loop of \<^verbatim>\<open>Module._write_eeprom\<close>. The source passes
  the same \<^verbatim>\<open>address\<close> to every \<^verbatim>\<open>MSG_write_eeprom_data\<close>: the loop never changes it.
\<close>

function write_loop :: "int \<Rightarrow> byte list \<Rightarrow> world \<Rightarrow> (error + unit) \<times> world" where
  "write_loop address d w =
     (if length d > 0 then
        (case MSG_write_eeprom_data address (take 6 d) of
           Inl e \<Rightarrow> (Inl e, w)
         | Inr msg \<Rightarrow>
             (case u_cmd msg (Some MSG_eeprom_write_ok) w of
                (Inl e, w') \<Rightarrow> (Inl e, w')
              | (Inr rsp, w') \<Rightarrow> write_loop address (drop 6 d) w'))
      else (Inr (), w))"
  by pat_completeness auto
termination
  by (relation "measure (\<lambda>(address, d, w). length d)") auto

declare write_loop.simps [simp del]

definition u_write_eeprom :: "module \<Rightarrow> int \<Rightarrow> byte list \<Rightarrow> world \<Rightarrow> (error + unit) \<times> world" where
  "u_write_eeprom m address d w =
     (case u_select m w of
        (Inl e, w1) \<Rightarrow> (Inl e, w1)
      | (Inr sv, w1) \<Rightarrow>
          (case MSG_write_eeprom of
             Inl e \<Rightarrow> (Inl e, w1)
           | Inr msg \<Rightarrow>
               (case u_cmd msg (Some MSG_eeprom_open) w1 of
                  (Inl e, w2) \<Rightarrow> (Inl e, w2)
                | (Inr rsp, w2) \<Rightarrow>
                    (case write_loop address d w2 of
                       (Inl e, w3) \<Rightarrow> (Inl e, w3)
                     | (Inr u, w3) \<Rightarrow>
                         (case MSG_close_eeprom of
                            Inl e \<Rightarrow> (Inl e, w3)
                          | Inr msg' \<Rightarrow>
                              (case u_cmd msg' (Some MSG_eeprom_closed) w3 of
                                 (Inl e, w4) \<Rightarrow> (Inl e, w4)
                               | (Inr rsp', w4) \<Rightarrow> (Inr (), w4)))))))"

subsection \<open>Module: flash mode, erase, program, upload\<close>

text \<open>
  \<^verbatim>\<open>Module._wait_for_boot\<close>: every received frame that is not an ACK of this module
  with the reason \<^verbatim>\<open>'reboot'\<close> is skipped; a timeout raises \<^verbatim>\<open>ModuleError\<close>.
\<close>

function u_wait_for_boot :: "module \<Rightarrow> world \<Rightarrow> (error + unit) \<times> world" where
  "u_wait_for_boot m w =
     (case recv w of
        (None, w') \<Rightarrow> (Inl ModuleError, w')
      | (Some rsp, w') \<Rightarrow>
          (case ack_init rsp of
             Inl e \<Rightarrow> (if is_MessageError e then u_wait_for_boot m w' else (Inl e, w'))
           | Inr boot_message \<Rightarrow>
               (if module_id boot_message \<noteq> VInt (u_module_id m) then u_wait_for_boot m w'
                else if reason boot_message \<noteq> ''reboot'' then u_wait_for_boot m w'
                else (Inr (), w'))))"
  by pat_completeness auto
termination
proof -
  have shorter: "length es' < length es" if "bus_recv es = (Some r, es')" for es r es'
    using that by (induction es rule: bus_recv.induct) (auto split: if_splits)
  have step: "length (bus w') < length (bus w)" if "(Some r, w') = recv w" for w r w'
    using that shorter [of "bus w" r] by (auto simp: recv_def split: prod.splits)
  show ?thesis
    by (relation "measure (\<lambda>(m, w). length (bus w))") (auto dest: step)
qed

declare u_wait_for_boot.simps [simp del]

text \<open>
  \<^verbatim>\<open>Module._enter_flash_mode\<close>. \<open>flash_try\<close> is its \<^verbatim>\<open>try\<close> statement: the result is
  the value of \<^verbatim>\<open>rsp\<close> after it. A \<^verbatim>\<open>MessageError\<close> raised anywhere inside is dropped
  (\<^verbatim>\<open>except MessageError: pass\<close>), leaving \<^verbatim>\<open>rsp\<close> as it was.
\<close>

definition flash_try :: "module \<Rightarrow> frame \<Rightarrow> world \<Rightarrow> (error + frame) \<times> world" where
  "flash_try m rsp w =
     (case rx_init MSG_program_nak rsp of
        Inl e \<Rightarrow> (if is_MessageError e then (Inr rsp, w) else (Inl e, w))
      | Inr will_reboot \<Rightarrow>
          (case u_wait_for_boot m w of
             (Inl e, w1) \<Rightarrow> (if is_MessageError e then (Inr rsp, w1) else (Inl e, w1))
           | (Inr u, w1) \<Rightarrow>
               (case u_select m w1 of
                  (Inl e, w2) \<Rightarrow> (if is_MessageError e then (Inr rsp, w2) else (Inl e, w2))
                | (Inr sv, w2) \<Rightarrow>
                    (case MSG_program of
                       Inl e \<Rightarrow> (if is_MessageError e then (Inr rsp, w2) else (Inl e, w2))
                     | Inr msg \<Rightarrow>
                         (case u_cmd msg None w2 of
                            (Inl e, w3) \<Rightarrow>
                              (if is_MessageError e then (Inr rsp, w3) else (Inl e, w3))
                          | (Inr rsp', w3) \<Rightarrow> (Inr rsp', w3))))))"

definition u_enter_flash_mode :: "module \<Rightarrow> world \<Rightarrow> (error + unit) \<times> world" where
  "u_enter_flash_mode m w =
     (case u_select m w of
        (Inl e, w1) \<Rightarrow> (Inl e, w1)
      | (Inr sv, w1) \<Rightarrow>
          (case MSG_program of
             Inl e \<Rightarrow> (Inl e, w1)
           | Inr msg \<Rightarrow>
               (case u_cmd msg None w1 of
                  (Inl e, w2) \<Rightarrow> (Inl e, w2)
                | (Inr rsp, w2) \<Rightarrow>
                    (case flash_try m rsp w2 of
                       (Inl e, w3) \<Rightarrow> (Inl e, w3)
                     | (Inr rsp', w3) \<Rightarrow>
                         (case rx_init MSG_program_ack rsp' of
                            Inl e \<Rightarrow> (Inl e, w3)
                          | Inr ready \<Rightarrow> (Inr (), w3))))))"

text \<open>
  \<^verbatim>\<open>Module._erase\<close>: the loop ends when a frame decodes as \<^verbatim>\<open>MSG_erase_done\<close>; a
  frame that is neither that nor a \<^verbatim>\<open>MSG_progress\<close> raises \<^verbatim>\<open>ModuleError\<close>. The
  progress bar is printed and has no part in the protocol.
\<close>

function erase_loop :: "world \<Rightarrow> (error + unit) \<times> world" where
  "erase_loop w =
     (case recv w of
        (None, w') \<Rightarrow> (Inl ModuleError, w')
      | (Some rsp, w') \<Rightarrow>
          (case rx_init MSG_erase_done rsp of
             Inr done \<Rightarrow> (Inr (), w')
           | Inl e \<Rightarrow>
               (if is_MessageError e then
                  (case rx_init MSG_progress rsp of
                     Inl e' \<Rightarrow> (Inl (promote e'), w')
                   | Inr progress \<Rightarrow> erase_loop w')
                else (Inl e, w'))))"
  by pat_completeness auto
termination
proof -
  have shorter: "length es' < length es" if "bus_recv es = (Some r, es')" for es r es'
    using that by (induction es rule: bus_recv.induct) (auto split: if_splits)
  have step: "length (bus w') < length (bus w)" if "(Some r, w') = recv w" for w r w'
    using that shorter [of "bus w" r] by (auto simp: recv_def split: prod.splits)
  show ?thesis
    by (relation "measure (\<lambda>w. length (bus w))") (auto dest: step)
qed

declare erase_loop.simps [simp del]

definition u_erase :: "module \<Rightarrow> world \<Rightarrow> (error + unit) \<times> world" where
  "u_erase m w =
     (case MSG_erase of
        Inl e \<Rightarrow> (Inl e, w)
      | Inr msg \<Rightarrow> erase_loop (send msg w))"

text \<open>
  \<^verbatim>\<open>Module._program\<close>. Each of its three fragment steps is the same three statements
  with another reply class: send the first 8 bytes of \<^verbatim>\<open>srec\<close> with \<^verbatim>\<open>_cmd\<close>, drop
  them from \<^verbatim>\<open>srec\<close>, and decode the reply (\<^verbatim>\<open>MessageError\<close> becomes \<^verbatim>\<open>ModuleError\<close>).
  \<open>send_fragment\<close> is that step; its result is the new \<^verbatim>\<open>srec\<close>.
\<close>

definition send_fragment :: "rx_kind \<Rightarrow> byte list \<Rightarrow> world \<Rightarrow> (error + byte list) \<times> world" where
  "send_fragment k srec w =
     (case u_cmd (MSG_srecord (take 8 srec)) None w of
        (Inl e, w') \<Rightarrow> (Inl e, w')
      | (Inr rsp, w') \<Rightarrow>
          (case rx_init k rsp of
             Inl e \<Rightarrow> (Inl (promote e), w')
           | Inr ack \<Rightarrow> (Inr (drop 8 srec), w')))"

text \<open>The \<^verbatim>\<open>while len(srec) > 8\<close> loop of the intermediate fragments.\<close>

function middle_fragments :: "byte list \<Rightarrow> world \<Rightarrow> (error + byte list) \<times> world" where
  "middle_fragments srec w =
     (if length srec > 8 then
        (case send_fragment MSG_srec_cont_ok srec w of
           (Inl e, w') \<Rightarrow> (Inl e, w')
         | (Inr srec', w') \<Rightarrow> middle_fragments srec' w')
      else (Inr srec, w))"
  by pat_completeness auto
termination
proof -
  have rest: "srec' = drop 8 srec" if "(Inr srec', w') = send_fragment k srec w"
    for srec' w' k srec w
    using that by (auto simp: send_fragment_def split: prod.splits sum.splits)
  show ?thesis
    by (relation "measure (\<lambda>(srec, w). length srec)") (auto dest!: rest)
qed

declare middle_fragments.simps [simp del]

text \<open>
  With \<^verbatim>\<open>--verbose\<close> the loop first prints \<^verbatim>\<open>srec[0:2].decode()\<close>, which raises
  \<^verbatim>\<open>UnicodeDecodeError\<close> unless the slice (at most two bytes) is UTF-8.
\<close>

fun decodes_utf8 :: "byte list \<Rightarrow> bool" where
  "decodes_utf8 [] = True"
| "decodes_utf8 [a] = (a < 0x80)"
| "decodes_utf8 [a, b] =
     ((a < 0x80 \<and> b < 0x80) \<or> (0xc2 \<le> a \<and> a \<le> 0xdf \<and> 0x80 \<le> b \<and> b \<le> 0xbf))"
| "decodes_utf8 bs = False"

text \<open>The body of \<^verbatim>\<open>for srec in memory_records\<close>.\<close>

definition program_record :: "module \<Rightarrow> byte list \<Rightarrow> world \<Rightarrow> (error + unit) \<times> world" where
  "program_record m srec w =
     (if u_verbose m \<and> \<not> decodes_utf8 (take 2 srec) then (Inl UnicodeDecodeError, w)
      else
        (case (if length srec > 8 then send_fragment MSG_srec_start_ok srec w
               else (Inr srec, w)) of
           (Inl e, w1) \<Rightarrow> (Inl e, w1)
         | (Inr srec1, w1) \<Rightarrow>
             (case middle_fragments srec1 w1 of
                (Inl e, w2) \<Rightarrow> (Inl e, w2)
              | (Inr srec2, w2) \<Rightarrow>
                  (case send_fragment MSG_srec_end_ok srec2 w2 of
                     (Inl e, w3) \<Rightarrow> (Inl e, w3)
                   | (Inr srec3, w3) \<Rightarrow> (Inr (), w3)))))"

fun program_records :: "module \<Rightarrow> byte list list \<Rightarrow> world \<Rightarrow> (error + unit) \<times> world" where
  "program_records m [] w = (Inr (), w)"
| "program_records m (srec # rest) w =
     (case program_record m srec w of
        (Inl e, w') \<Rightarrow> (Inl e, w')
      | (Inr u, w') \<Rightarrow> program_records m rest w')"

text \<open>
  \<open>records\<close> is \<^verbatim>\<open>list(srecords.upload_records())\<close>, the records of the S-record
  source (a collaborator outside this module). \<^verbatim>\<open>records[-1]\<close> of an empty list is
  an \<^verbatim>\<open>IndexError\<close>.
\<close>

definition u_program :: "module \<Rightarrow> byte list list \<Rightarrow> world \<Rightarrow> (error + unit) \<times> world" where
  "u_program m records w =
     (if records = [] then (Inl IndexError, w)
      else
        (case program_records m (butlast records) w of
           (Inl e, w1) \<Rightarrow> (Inl e, w1)
         | (Inr u, w1) \<Rightarrow>
             (case u_cmd (MSG_srecord (last records)) None w1 of
                (Inl e, w2) \<Rightarrow> (Inl e, w2)
              | (Inr rsp, w2) \<Rightarrow>
                  (case rx_init MSG_srecords_done rsp of
                     Inl e \<Rightarrow> (Inl (promote e), w2)
                   | Inr ack \<Rightarrow> (Inr (), w2)))))"


definition erase :: "module \<Rightarrow> world \<Rightarrow> (error + unit) \<times> world" where
  "erase m w =
     (case u_enter_flash_mode m w of
        (Inl e, w1) \<Rightarrow> (Inl e, w1)
      | (Inr u, w1) \<Rightarrow> u_erase m w1)"

subsection \<open>Module parameters\<close>

text \<open>\<^verbatim>\<open>PARAMETER_MAP\<close>, entry by entry: the format and the name.\<close>

definition PARAMETER_MAP :: "(fmt \<times> string) list" where
  "PARAMETER_MAP =
     [([Fmt_B, Fmt_B], ''_''),
      ([Fmt_H], ''_ParameterMagic''),
      ([Fmt_I], ''SerialNumber''),
      ([Fmt_s 12], ''PartNumber''),
      ([Fmt_s 12], ''DrawingNumber''),
      ([Fmt_s 20], ''Name''),
      ([Fmt_s 8], ''OrderNumber''),
      ([Fmt_s 8], ''TestDate''),
      ([Fmt_H], ''HardwareVersion''),
      ([Fmt_B], ''ResetCounter''),
      ([Fmt_H], ''LibraryVersion''),
      ([Fmt_B], ''ResetReasonLVD''),
      ([Fmt_B], ''ResetReasonLOC''),
      ([Fmt_B], ''ResetReasonILAD''),
      ([Fmt_B], ''ResetReasonILOP''),
      ([Fmt_B], ''ResetReasonCOP''),
      ([Fmt_B], ''MCUType''),
      ([Fmt_B], ''HardwareCANActive''),
      ([Fmt_B, Fmt_B, Fmt_B], ''Reserved1''),
      ([Fmt_H], ''BootloaderVersion''),
      ([Fmt_H], ''ProgramState''),
      ([Fmt_H], ''Portbyte1''),
      ([Fmt_H], ''Portbyte2''),
      ([Fmt_H], ''BaudrateBootloader1''),
      ([Fmt_H], ''BaudrateBootloader2''),
      ([Fmt_B], ''BootloaderIDExt1''),
      ([Fmt_I], ''BootloaderID1''),
      ([Fmt_B], ''BootloaderIDCRC1''),
      ([Fmt_B], ''BootloaderIDExt2''),
      ([Fmt_I], ''BootloaderID2''),
      ([Fmt_B], ''BootloaderIDCRC2''),
      ([Fmt_s 20], ''SoftwareVersion''),
      ([Fmt_s 30], ''ModuleName''),
      ([Fmt_B], ''BootloaderCANBus''),
      ([Fmt_H], ''COPWatchdogTimeout''),
      ([Fmt_B, Fmt_B, Fmt_B, Fmt_B, Fmt_B, Fmt_B, Fmt_B], ''Reserved2'')]"

definition PARAMETER_WRITE_OK :: "string list" where
  "PARAMETER_WRITE_OK = [''BaudrateBootloader1'', ''SoftwareVersion'', ''ModuleName'']"

text \<open>A value the callers pass to \<^verbatim>\<open>set_parameter\<close> or get from \<^verbatim>\<open>parameter\<close>.\<close>

datatype pyvalue = PyInt int | PyStr pystr | PyTuple "val list"

text \<open>\<^verbatim>\<open>BAUD_MAP[value]\<close>: the keys are the six integers; any other key is a \<^verbatim>\<open>KeyError\<close>.\<close>

definition BAUD_MAP :: "(int \<times> byte list) list" where
  "BAUD_MAP =
     [(1000, [0xfe, 0x01]),
      (800, [0xfd, 0x02]),
      (500, [0xfc, 0x03]),
      (250, [0xfb, 0x04]),
      (125, [0xfa, 0x05]),
      (100, [0xf6, 0x09])]"

fun BAUD_MAP_getitem :: "pyvalue \<Rightarrow> error + byte list" where
  "BAUD_MAP_getitem (PyInt k) = (case map_of BAUD_MAP k of None \<Rightarrow> Inl KeyError | Some c \<Rightarrow> Inr c)"
| "BAUD_MAP_getitem v = Inl KeyError"

text \<open>The loop of \<^verbatim>\<open>Module._parameter\<close> over \<^verbatim>\<open>PARAMETER_MAP\<close>, with the running offset.\<close>

fun parameter_loop :: "(fmt \<times> string) list \<Rightarrow> nat \<Rightarrow> string \<Rightarrow> error + (nat \<times> fmt)" where
  "parameter_loop [] offset parameter_name = Inl RuntimeError"
| "parameter_loop ((f, name) # rest) offset parameter_name =
     (if name = parameter_name then Inr (offset, f)
      else parameter_loop rest (offset + calcsize f) parameter_name)"

definition u_parameter :: "string \<Rightarrow> error + (nat \<times> fmt)" where
  "u_parameter parameter_name = parameter_loop PARAMETER_MAP 0 parameter_name"

text \<open>\<^verbatim>\<open>fmt[-1] == 's'\<close>: the last character of the format string is that of its last item.\<close>

fun ends_with_s :: "fmt \<Rightarrow> bool" where
  "ends_with_s [] = False"
| "ends_with_s [Fmt_s n] = True"
| "ends_with_s [it] = False"
| "ends_with_s (it # its) = ends_with_s its"

text \<open>\<^verbatim>\<open>bytes.decode('ascii')\<close> and \<^verbatim>\<open>str.encode('ascii')\<close>.\<close>

definition decode_ascii :: "byte list \<Rightarrow> error + pystr" where
  "decode_ascii bs =
     (if \<forall>b \<in> set bs. b < 0x80 then Inr (map unat bs) else Inl UnicodeDecodeError)"

definition encode_ascii :: "pystr \<Rightarrow> error + byte list" where
  "encode_ascii s =
     (if \<forall>c \<in> set s. c < 0x80 then Inr (map of_nat s) else Inl UnicodeEncodeError)"

text \<open>The format \<^verbatim>\<open>{v:#x}\<close> of an integer: \<^verbatim>\<open>0x\<close> and the lower-case hexadecimal digits.\<close>

definition hex_digit :: "nat \<Rightarrow> nat" where
  "hex_digit d = (if d < 10 then 48 + d else 87 + d)"

fun hex_digits :: "nat \<Rightarrow> pystr" where
  "hex_digits n = (if n < 16 then [hex_digit n] else hex_digits (n div 16) @ [hex_digit (n mod 16)])"

definition format_hex :: "int \<Rightarrow> pystr" where
  "format_hex v =
     (if v < 0 then [45, 48, 120] @ hex_digits (nat (- v)) else [48, 120] @ hex_digits (nat v))"

text \<open>
  \<^verbatim>\<open>Module.parameter\<close>. \<^verbatim>\<open>value[0].decode\<close> needs a bytes object (an integer has no
  \<^verbatim>\<open>decode\<close>: \<^verbatim>\<open>AttributeError\<close>, here \<open>TypeError\<close>, which no format of the map reaches).
\<close>

definition parameter :: "module \<Rightarrow> string \<Rightarrow> world \<Rightarrow> (error + pyvalue) \<times> world" where
  "parameter m parameter_name w =
     (case u_parameter parameter_name of
        Inl e \<Rightarrow> (Inl e, w)
      | Inr (address, f) \<Rightarrow>
          (case u_read_eeprom m (int address) (int (calcsize f)) w of
             (Inl e, w') \<Rightarrow> (Inl e, w')
           | (Inr bs, w') \<Rightarrow>
               (case unpack f bs of
                  Inl e \<Rightarrow> (Inl e, w')
                | Inr v \<Rightarrow>
                    (if ends_with_s f then
                       (case v of
                          VBytes b # vs \<Rightarrow>
                            (case decode_ascii b of
                               Inl e \<Rightarrow> (Inl e, w')
                             | Inr s \<Rightarrow> (Inr (PyStr s), w'))
                        | VInt i # vs \<Rightarrow> (Inl TypeError, w')
                        | [] \<Rightarrow> (Inl IndexError, w'))
                     else if length v = 1 then
                       (case v of
                          [VInt i] \<Rightarrow> (Inr (PyStr (format_hex i)), w')
                        | _ \<Rightarrow> (Inl TypeError, w'))
                     else (Inr (PyTuple v), w')))))"

text \<open>The loop \<^verbatim>\<open>while len(value) < fmtlen: value += '\0'\<close>.\<close>

function pad_nul :: "pystr \<Rightarrow> nat \<Rightarrow> pystr" where
  "pad_nul v fmtlen = (if length v < fmtlen then pad_nul (v @ [0]) fmtlen else v)"
  by pat_completeness auto
termination
  by (relation "measure (\<lambda>(v, fmtlen). fmtlen - length v)") auto

declare pad_nul.simps [simp del]

text \<open>
  \<^verbatim>\<open>Module.set_parameter\<close>. It writes through \<^verbatim>\<open>self._write_eeprom\<close>, an attribute that
  Python looks up on the object at the call: \<open>write_eeprom\<close> stands for the method found
  there, so that what \<^verbatim>\<open>set_parameter\<close> hands to it can be stated whatever the method then
  does. The argument \<^verbatim>\<open>BAUD_MAP[value]\<close> is evaluated before the method is called, and so
  is \<^verbatim>\<open>value.encode('ascii')\<close>. \<^verbatim>\<open>len(value)\<close> of an integer is a \<^verbatim>\<open>TypeError\<close>; a tuple
  has no \<^verbatim>\<open>encode\<close> and cannot be extended by a string (\<open>TypeError\<close> here for both).
\<close>

definition set_parameter_with ::
  "(module \<Rightarrow> int \<Rightarrow> byte list \<Rightarrow> world \<Rightarrow> (error + unit) \<times> world) \<Rightarrow>
   module \<Rightarrow> string \<Rightarrow> pyvalue \<Rightarrow> world \<Rightarrow> (error + unit) \<times> world" where
  "set_parameter_with write_eeprom m parameter_name v w =
     (if parameter_name \<notin> set PARAMETER_WRITE_OK then (Inl RuntimeError, w)
      else
        (case u_parameter parameter_name of
           Inl e \<Rightarrow> (Inl e, w)
         | Inr (address, f) \<Rightarrow>
             (if parameter_name = ''BaudrateBootloader1'' then
                (case BAUD_MAP_getitem v of
                   Inl e \<Rightarrow> (Inl (if e = KeyError then RuntimeError else e), w)
                 | Inr code \<Rightarrow>
                     (case write_eeprom m (int address) code w of
                        (Inl e, w') \<Rightarrow> (Inl (if e = KeyError then RuntimeError else e), w')
                      | (Inr u, w') \<Rightarrow> (Inr (), w')))
              else if ends_with_s f then
                (case v of
                   PyStr s \<Rightarrow>
                     (if length s > calcsize f then (Inl RuntimeError, w)
                      else
                        (case encode_ascii (pad_nul s (calcsize f)) of
                           Inl e \<Rightarrow> (Inl e, w)
                         | Inr bs \<Rightarrow> write_eeprom m (int address) bs w))
                 | PyInt i \<Rightarrow> (Inl TypeError, w)
                 | PyTuple t \<Rightarrow>
                     (if length t > calcsize f then (Inl RuntimeError, w) else (Inl TypeError, w)))
              else (Inl RuntimeError, w))))"

text \<open>On a \<^verbatim>\<open>Module\<close> object the method found is \<^verbatim>\<open>Module._write_eeprom\<close>.\<close>

definition set_parameter :: "module \<Rightarrow> string \<Rightarrow> pyvalue \<Rightarrow> world \<Rightarrow> (error + unit) \<times> world" where
  "set_parameter m parameter_name v w = set_parameter_with u_write_eeprom m parameter_name v w"

subsection \<open>Interface.scan\<close>

text \<open>One entry of the dictionary that \<^verbatim>\<open>scan\<close> returns.\<close>

record scan_entry =
  entry_status :: string
  entry_reason :: string
  entry_sw_ver :: val

text \<open>
  The \<^verbatim>\<open>while True\<close> loop of \<^verbatim>\<open>Interface.scan\<close>. The dictionary \<^verbatim>\<open>modules\<close> is an
  association list in insertion order; \<^verbatim>\<open>modules[k] = v\<close> replaces the value of a key
  that is present and appends a new key otherwise, which is \<open>AList.update\<close>.
\<close>

function scan_loop ::
  "(val \<times> scan_entry) list \<Rightarrow> world \<Rightarrow> (error + (val \<times> scan_entry) list) \<times> world" where
  "scan_loop modules w =
     (case recv w of
        (Some rsp, w') \<Rightarrow>
          (case ack_init rsp of
             Inl e \<Rightarrow> (Inl (if is_MessageError e then MessageError Scan_traffic else e), w')
           | Inr a \<Rightarrow>
               scan_loop
                 (AList.update (module_id a)
                    \<lparr>entry_status = status a, entry_reason = reason a, entry_sw_ver = sw_version a\<rparr>
                    modules) w')
      | (None, w') \<Rightarrow>
          (case clock w' of
             [] \<Rightarrow> (Inr modules, w')
           | False # c \<Rightarrow> (Inr modules, w'\<lparr>clock := c\<rparr>)
           | True # c \<Rightarrow>
               (case MSG_ping of
                  Inl e \<Rightarrow> (Inl e, w'\<lparr>clock := c\<rparr>)
                | Inr msg \<Rightarrow> scan_loop modules (send msg (w'\<lparr>clock := c\<rparr>)))))"
  by pat_completeness auto
termination
proof -
  have shorter: "length es' < length es" if "bus_recv es = (Some r, es')" for es r es'
    using that by (induction es rule: bus_recv.induct) (auto split: if_splits)
  have no_longer: "length (snd (bus_recv es)) \<le> length es" for es
    by (induction es rule: bus_recv.induct) auto
  have step: "length (bus w') < length (bus w) \<and> clock w' = clock w"
    if "(Some r, w') = recv w" for w r w'
    using that shorter [of "bus w" r] by (auto simp: recv_def split: prod.splits)
  have quiet: "length (bus w') \<le> length (bus w) \<and> clock w' = clock w"
    if "(None, w') = recv w" for w w'
    using that no_longer [of "bus w"] by (auto simp: recv_def split: prod.splits)
  show ?thesis
    by (relation "measure (\<lambda>(modules, w). length (bus w) + length (clock w))")
      (auto simp: send_def dest!: step quiet)
qed

declare scan_loop.simps [simp del]

definition scan :: "world \<Rightarrow> (error + (val \<times> scan_entry) list) \<times> world" where
  "scan w =
     (case MSG_ping of
        Inl e \<Rightarrow> (Inl e, w)
      | Inr msg \<Rightarrow> scan_loop [] (send msg w))"

subsection \<open>Vocabulary of the statements and the worlds of the examples\<close>

text \<open>
  A module with the ID 0x01020304, the \<^verbatim>\<open>selected\<close> reply that echoes this ID, and a world
  whose bus delivers the given frames in order and is quiet afterwards.
\<close>

definition module_1 :: module where
  "module_1 = \<lparr>u_module_id = 0x01020304, u_verbose = False\<rparr>"

definition select_1 :: frame where
  "select_1 = Message CMD_ID [0x20, 0x10, 1, 2, 3, 4]"

definition selected_1 :: frame where
  "selected_1 = Message RSP_ID [0x21, 0x10, 1, 2, 3, 4, 0, 0]"

definition delivering :: "frame list \<Rightarrow> world" where
  "delivering fs = \<lparr>bus = map Arrives fs, clock = [], log = []\<rparr>"

text \<open>The replies that acknowledge the steps of an EEPROM write.\<close>

definition eeprom_open_ok :: frame where
  "eeprom_open_ok = Message RSP_ID [0x21, 0x11, 1, 0, 0]"

definition eeprom_write_ok :: frame where
  "eeprom_write_ok = Message RSP_ID [0x20, 0xe8, 0, 0, 0]"

definition eeprom_closed_ok :: frame where
  "eeprom_closed_ok = Message RSP_ID [0x20, 0xf0, 2, 0, 0]"

text \<open>The number of bytes of the UTF-8 encoding of a string.\<close>

definition utf8_length :: "pystr \<Rightarrow> nat" where
  "utf8_length s =
     sum_list (map (\<lambda>c. if c < 0x80 then 1 else if c < 0x800 then 2
                         else if c < 0x10000 then 3 else 4) s)"

text \<open>A string without its trailing NUL characters.\<close>

definition strip_trailing_nul :: "pystr \<Rightarrow> pystr" where
  "strip_trailing_nul s = rev (dropWhile (\<lambda>c. c = 0) (rev s))"

text \<open>
  A reply is accepted as a message of kind \<open>k\<close> when the constructor of \<open>k\<close> raises nothing.
  An exchange is what \<^verbatim>\<open>_cmd\<close> leaves in the log: the frame sent and the reply received.
\<close>

definition accepts :: "rx_kind \<Rightarrow> frame \<Rightarrow> bool" where
  "accepts k r = (case rx_init k r of Inl e \<Rightarrow> False | Inr v \<Rightarrow> True)"

definition exchange :: "frame \<Rightarrow> frame \<Rightarrow> event list" where
  "exchange msg r = [Sent msg, Received (Some r)]"

text \<open>
  The fragments of one S-record, as claim C1 describes them: \<open>es\<close> is a sequence of
  exchanges whose frames carry the fragments \<open>frags\<close> of \<open>srec\<close> in order, each reply
  accepted as the kind expected for its fragment; one end fragment for a record of at
  most 8 bytes, a start and an end fragment up to 16 bytes, and beyond that a start
  fragment, \<open>\<lceil>(L - 8) / 8\<rceil> - 1\<close> middle fragments of 8 bytes and an end fragment.
\<close>

definition fragmented :: "byte list \<Rightarrow> event list \<Rightarrow> bool" where
  "fragmented srec es =
     (\<exists>frags kinds rsps.
        es = concat (map2 (\<lambda>d r. exchange (MSG_srecord d) r) frags rsps) \<and>
        length rsps = length frags \<and>
        list_all2 accepts kinds rsps \<and>
        concat frags = srec \<and>
        (length srec \<le> 8 \<longrightarrow> frags = [srec] \<and> kinds = [MSG_srec_end_ok]) \<and>
        (8 < length srec \<and> length srec \<le> 16 \<longrightarrow>
           frags = [take 8 srec, drop 8 srec] \<and> kinds = [MSG_srec_start_ok, MSG_srec_end_ok]) \<and>
        (16 < length srec \<longrightarrow>
           (\<exists>mids e.
              frags = take 8 srec # mids @ [e] \<and>
              length mids = (length srec - 8 + 7) div 8 - 1 \<and>
              (\<forall>d \<in> set mids. length d = 8) \<and>
              0 < length e \<and> length e \<le> 8 \<and>
              kinds = MSG_srec_start_ok # replicate (length mids) MSG_srec_cont_ok
                        @ [MSG_srec_end_ok])))"

text \<open>The replies that acknowledge a start, a middle and an end fragment.\<close>

definition srec_start_ok :: frame where
  "srec_start_ok = Message RSP_ID [0x00, 0x01, 0x01, 0x01, 0x01]"

definition srec_cont_ok :: frame where
  "srec_cont_ok = Message RSP_ID [0x00, 0x01]"

definition srec_end_ok :: frame where
  "srec_end_ok = Message RSP_ID [0x00, 0x00, 0x01]"

text \<open>
  The dictionary entry that \<^verbatim>\<open>scan\<close> stores for an ACK, and the ACKs among the results
  of \<^verbatim>\<open>Interface.recv\<close> in a piece of the log, in the order of their arrival.
\<close>

definition entry_of :: "ack \<Rightarrow> scan_entry" where
  "entry_of a = \<lparr>entry_status = status a, entry_reason = reason a, entry_sw_ver = sw_version a\<rparr>"

fun received_acks :: "event list \<Rightarrow> ack list" where
  "received_acks [] = []"
| "received_acks (Received (Some f) # es) =
     (case ack_init f of Inl e \<Rightarrow> received_acks es | Inr a \<Rightarrow> a # received_acks es)"
| "received_acks (e # es) = received_acks es"

text \<open>
  A piece of the log in which every frame sent is a command frame (ID \<^verbatim>\<open>CMD_ID\<close>), and
  the frames of the commands \<^verbatim>\<open>MSG_program()\<close> and \<^verbatim>\<open>MSG_erase()\<close>.
\<close>

definition cmd_only :: "event list \<Rightarrow> bool" where
  "cmd_only es = (\<forall>f. Sent f \<in> set es \<longrightarrow> arbitration_id f = CMD_ID)"

definition program_cmd :: frame where
  "program_cmd = Message CMD_ID [0x20, 0x00]"

definition erase_cmd :: frame where
  "erase_cmd = Message CMD_ID [0x02, 0x02]"

text \<open>The replies \<^verbatim>\<open>program_ack\<close>, erase progress (2 of 5), \<^verbatim>\<open>erase_done\<close> and \<^verbatim>\<open>srecords_done\<close>.\<close>

definition program_ack_1 :: frame where
  "program_ack_1 = Message RSP_ID [0x21, 0x00, 1, 2, 3, 4, 0, 0]"

definition erase_progress :: frame where
  "erase_progress = Message RSP_ID [0x00, 0x02, 0x05, 0x00]"

definition erase_done_ok :: frame where
  "erase_done_ok = Message RSP_ID [0x00, 0x00, 0x00, 0x01]"

definition srecords_done_ok :: frame where
  "srecords_done_ok = Message RSP_ID [0x00, 0x12, 0x34]"

text \<open>
  The values that \<^verbatim>\<open>struct.unpack\<close> reads from a frame for a message kind, the fields
  that the kind's filter flags and the constants it expects there. A frame is well sized
  for a kind when it has the kind's ID and as many payload bytes as the kind's format, its
  \<^verbatim>\<open>dlc\<close> being the number of its payload bytes. The status of a frame is in order
  unless the kind is \<^verbatim>\<open>MSG_erase_done\<close> and field 1 is neither 0 nor 0xff.
\<close>

definition fields :: "rx_kind \<Rightarrow> frame \<Rightarrow> val list" where
  "fields k raw = unpack_items (rx_format k) (data raw)"

definition flagged :: "rx_kind \<Rightarrow> nat \<Rightarrow> bool" where
  "flagged k i = (i < length (rx_filter k) \<and> fst (rx_filter k ! i))"

definition expected :: "rx_kind \<Rightarrow> nat \<Rightarrow> val" where
  "expected k i = snd (rx_filter k ! i)"

definition well_sized :: "rx_kind \<Rightarrow> frame \<Rightarrow> bool" where
  "well_sized k raw =
     (arbitration_id raw = rx_expected_id k \<and> dlc raw = calcsize (rx_format k) \<and>
      length (data raw) = dlc raw)"

definition status_ok :: "rx_kind \<Rightarrow> val list \<Rightarrow> bool" where
  "status_ok k values = (k \<noteq> MSG_erase_done \<or> values ! 1 = VInt 0 \<or> values ! 1 = VInt 0xff)"





text \<open>
  The requests of an EEPROM read are pairs of an address and a count. They advance from
  \<open>A\<close> when the first address is \<open>A\<close> and the address of each later request is that of
  the request before it plus the count of the request before it.
\<close>

definition advancing :: "int \<Rightarrow> (int \<times> int) list \<Rightarrow> bool" where
  "advancing A reqs =
     ((reqs \<noteq> [] \<longrightarrow> fst (hd reqs) = A) \<and>
      (\<forall>i. Suc i < length reqs \<longrightarrow> fst (reqs ! Suc i) = fst (reqs ! i) + snd (reqs ! i)))"

text \<open>
  The reply \<open>r\<close> to the request \<open>q\<close> is full when it carries as many bytes as \<open>q\<close> asks for.
\<close>

definition full_reply :: "int \<times> int \<Rightarrow> frame \<Rightarrow> bool" where
  "full_reply q r = (int (length (data r)) = snd q)"

text \<open>
  A read of \<open>N\<close> bytes at \<open>A\<close> that left \<open>es\<close> in the log and returned \<open>bs\<close>: \<open>es\<close> is
  the sequence of the exchanges of \<open>\<lceil>N / 8\<rceil>\<close> \<^verbatim>\<open>read_eeprom\<close> commands, whose counts are
  between 1 and 8 and sum to \<open>N\<close> and whose addresses advance from \<open>A\<close>, each answered by a
  frame with the ID \<^verbatim>\<open>DATA_ID\<close>; \<open>bs\<close> is the concatenation of the payloads of the replies,
  and has \<open>N\<close> bytes when every reply is full.
\<close>

definition chunked_read :: "int \<Rightarrow> int \<Rightarrow> event list \<Rightarrow> byte list \<Rightarrow> bool" where
  "chunked_read A N es bs =
     (\<exists>reqs cmds rs.
        length reqs = nat ((N + 7) div 8) \<and>
        (\<forall>q \<in> set reqs. 0 < snd q \<and> snd q \<le> 8) \<and>
        sum_list (map snd reqs) = N \<and>
        advancing A reqs \<and>
        map (\<lambda>q. MSG_read_eeprom (fst q) (snd q)) reqs = map Inr cmds \<and>
        length rs = length reqs \<and>
        es = concat (map2 exchange cmds rs) \<and>
        (\<forall>r \<in> set rs. arbitration_id r = DATA_ID) \<and>
        bs = concat (map data rs) \<and>
        (list_all2 full_reply reqs rs \<longrightarrow> int (length bs) = N))"

text \<open>
  The kinds of the replies that \<^verbatim>\<open>_program\<close> expects for the fragments of one memory
  record, in order: \<^verbatim>\<open>srec_end_ok\<close> alone for a record of at most 8 bytes, and otherwise
  \<^verbatim>\<open>srec_start_ok\<close>, \<open>\<lceil>(L - 8) / 8\<rceil> - 1\<close> times \<^verbatim>\<open>srec_cont_ok\<close>, and \<^verbatim>\<open>srec_end_ok\<close>.
\<close>

definition expected_replies :: "byte list \<Rightarrow> rx_kind list" where
  "expected_replies srec =
     (if length srec \<le> 8 then [MSG_srec_end_ok]
      else MSG_srec_start_ok # replicate ((length srec - 8 + 7) div 8 - 1) MSG_srec_cont_ok
             @ [MSG_srec_end_ok])"



section \<open>Properties\<close>

subsection \<open>Evaluation of the definitions\<close>

lemmas id_defs = ACK_ID_def CMD_ID_def RSP_ID_def SREC_ID_def DATA_ID_def EEPROM_ID_def
  CONSOLE_ID_def RECEIVE_FILTER_def

lemma be_bytes_1: "be_bytes 1 v = [word_of_int v]"
  by (simp add: eval_nat_numeral)

lemma be_bytes_2: "be_bytes 2 v = [word_of_int (v div 256), word_of_int v]"
  by (simp add: eval_nat_numeral)

lemma be_bytes_4:
  "be_bytes 4 v =
     [word_of_int (v div 256 div 256 div 256), word_of_int (v div 256 div 256),
      word_of_int (v div 256), word_of_int v]"
  by (simp add: eval_nat_numeral)

lemmas tx_defs = TXMessage_def pack_def Message_def MSG_ping_def MSG_select_def
  MSG_read_eeprom_def MSG_write_eeprom_def MSG_write_eeprom_data_def MSG_close_eeprom_def
  MSG_program_def MSG_erase_def MSG_srecord_def be_bytes_1 be_bytes_2 be_bytes_4

lemmas rx_defs = RXMessage_def rx_init_def unpack_def calcsize_def be_int_def promote_def
  selected_init_def ack_init_def

lemmas io_defs = recv_def send_def u_cmd_def

lemmas example_defs = module_1_def select_1_def selected_1_def delivering_def
  eeprom_open_ok_def eeprom_write_ok_def eeprom_closed_ok_def
  srec_start_ok_def srec_cont_ok_def srec_end_ok_def program_ack_1_def erase_progress_def
  erase_done_ok_def srecords_done_ok_def

text \<open>\<^verbatim>\<open>MSG_write_eeprom()\<close> raises \<^verbatim>\<open>struct.error\<close>, whatever the state of the bus.\<close>

lemma MSG_write_eeprom_raises: "MSG_write_eeprom = Inl StructError"
  by (simp add: tx_defs)

subsection \<open>What the commands leave in the log\<close>

lemma accepts_iff: "accepts k r \<longleftrightarrow> (\<exists>v. rx_init k r = Inr v)"
  by (simp add: accepts_def split: sum.splits)

lemma recv_log: "recv w = (r, w') \<Longrightarrow> log w' = log w @ [Received r]"
  by (auto simp: recv_def split: prod.splits)

lemma cmd_only_simps [simp]:
  "cmd_only []"
  "cmd_only (Received x # es) = cmd_only es"
  "cmd_only (Sent f # es) = (arbitration_id f = CMD_ID \<and> cmd_only es)"
  "cmd_only (xs @ ys) = (cmd_only xs \<and> cmd_only ys)"
  by (auto simp: cmd_only_def)





lemma cmd_ids [simp]: "arbitration_id program_cmd = CMD_ID" "arbitration_id erase_cmd = CMD_ID"
  by (simp_all add: program_cmd_def erase_cmd_def Message_def)


lemma u_cmd_Inr:
  assumes "u_cmd msg k w = (Inr rsp, w')"
  shows "log w' = log w @ [Sent msg, Received (Some rsp)]"
  using assms
  by (auto simp: u_cmd_def recv_def send_def split: prod.splits option.splits sum.splits)

subsection \<open>C1: the fragments of an S-record\<close>

lemma u_cmd_None_Inr:
  assumes "u_cmd msg None w = (Inr rsp, w')"
  shows "log w' = log w @ exchange msg rsp"
  using assms by (auto simp: u_cmd_def recv_def send_def exchange_def split: prod.splits option.splits)

lemma send_fragment_Inr:
  assumes "send_fragment k srec w = (Inr srec', w')"
  shows "srec' = drop 8 srec \<and>
         (\<exists>r. log w' = log w @ exchange (MSG_srecord (take 8 srec)) r \<and> accepts k r)"
  using assms
  by (auto simp: send_fragment_def accepts_iff dest!: u_cmd_None_Inr split: prod.splits sum.splits)

lemma middle_fragments_Inr:
  assumes "middle_fragments srec w = (Inr srec', w')"
  shows "\<exists>mids rsps.
           log w' = log w @ concat (map2 (\<lambda>d r. exchange (MSG_srecord d) r) mids rsps) \<and>
           length rsps = length mids \<and>
           list_all2 accepts (replicate (length mids) MSG_srec_cont_ok) rsps \<and>
           srec = concat mids @ srec' \<and>
           (\<forall>d \<in> set mids. length d = 8) \<and>
           length srec' \<le> 8 \<and> (0 < length srec \<longrightarrow> 0 < length srec') \<and>
           length mids = (length srec - 1) div 8"
  using assms
proof (induction srec w arbitrary: srec' w' rule: middle_fragments.induct)
  case (1 srec w)
  show ?case
  proof (cases "8 < length srec")
    case False
    with "1.prems" have "srec' = srec" "w' = w"
      by (simp_all add: middle_fragments.simps [of srec w])
    with False show ?thesis
      by (intro exI [of _ "[]"]) simp
  next
    case True
    with "1.prems" obtain s1 w1 where
      step: "send_fragment MSG_srec_cont_ok srec w = (Inr s1, w1)" and
      rest: "middle_fragments s1 w1 = (Inr srec', w')"
      by (auto simp: middle_fragments.simps [of srec w] split: prod.splits sum.splits)
    from send_fragment_Inr [OF step] obtain r where
      s1: "s1 = drop 8 srec" and
      log1: "log w1 = log w @ exchange (MSG_srecord (take 8 srec)) r" and
      acc: "accepts MSG_srec_cont_ok r"
      by blast
    from "1.IH" [OF True step [symmetric] refl rest]
    obtain mids rsps where
      ih: "log w' = log w1 @ concat (map2 (\<lambda>d r. exchange (MSG_srecord d) r) mids rsps)"
          "length rsps = length mids"
          "list_all2 accepts (replicate (length mids) MSG_srec_cont_ok) rsps"
          "s1 = concat mids @ srec'"
          "\<forall>d \<in> set mids. length d = 8"
          "length srec' \<le> 8" "0 < length s1 \<longrightarrow> 0 < length srec'"
          "length mids = (length s1 - 1) div 8"
      by blast
    have cat: "srec = concat (take 8 srec # mids) @ srec'"
      using ih(4) s1 by (metis append_take_drop_id concat.simps(2) append_assoc)
    have len: "length (take 8 srec # mids) = (length srec - 1) div 8"
      using ih(8) s1 True by simp
    have acc2: "list_all2 accepts (replicate (length (take 8 srec # mids)) MSG_srec_cont_ok) (r # rsps)"
      using acc ih(3) by simp
    have pos: "0 < length srec'"
      using ih(7) s1 True by simp
    have log2: "log w' = log w @ concat (map2 (\<lambda>d r. exchange (MSG_srecord d) r) (take 8 srec # mids) (r # rsps))"
      using ih(1) log1 by simp
    have len8: "\<forall>d \<in> set (take 8 srec # mids). length d = 8"
      using ih(5) True by simp
    have lens: "length (r # rsps) = length (take 8 srec # mids)"
      using ih(2) by simp
    from log2 lens acc2 cat len8 ih(6) pos len show ?thesis
      by blast
  qed
qed


lemma fragmented_short:
  assumes "length srec \<le> 8" "accepts MSG_srec_end_ok r"
  shows "fragmented srec (exchange (MSG_srecord srec) r)"
  unfolding fragmented_def
  apply (rule exI [of _ "[srec]"])
  apply (rule exI [of _ "[MSG_srec_end_ok]"])
  apply (rule exI [of _ "[r]"])
  using assms by simp

lemma fragmented_long:
  assumes long: "8 < length srec"
    and mids: "\<forall>d \<in> set mids. length d = 8"
    and cnt: "length mids = (length srec - 8 - 1) div 8"
    and cat: "drop 8 srec = concat mids @ e"
    and e: "0 < length e" "length e \<le> 8"
    and len: "length rsps = length mids"
    and acc: "accepts MSG_srec_start_ok r0"
      "list_all2 accepts (replicate (length mids) MSG_srec_cont_ok) rsps"
      "accepts MSG_srec_end_ok r1"
  shows "fragmented srec
           (exchange (MSG_srecord (take 8 srec)) r0
            @ concat (map2 (\<lambda>d r. exchange (MSG_srecord d) r) mids rsps)
            @ exchange (MSG_srecord e) r1)"
proof -
  let ?frags = "take 8 srec # mids @ [e]"
  let ?kinds = "MSG_srec_start_ok # replicate (length mids) MSG_srec_cont_ok @ [MSG_srec_end_ok]"
  let ?rsps = "r0 # rsps @ [r1]"
  have a: "exchange (MSG_srecord (take 8 srec)) r0
            @ concat (map2 (\<lambda>d r. exchange (MSG_srecord d) r) mids rsps)
            @ exchange (MSG_srecord e) r1
           = concat (map2 (\<lambda>d r. exchange (MSG_srecord d) r) ?frags ?rsps)"
    using len by simp
  have b: "length ?rsps = length ?frags" using len by simp
  have c: "list_all2 accepts ?kinds ?rsps"
    using acc len by (simp add: list_all2_appendI)
  have d: "concat ?frags = srec"
    using cat by (metis append_take_drop_id concat.simps(2) concat_append append_Nil2
        concat.simps(1) append_assoc)
  have sz: "length (concat mids) = 8 * length mids"
    using mids by (induction mids) auto
  have total: "length srec = 8 + 8 * length mids + length e"
    using cat sz long by (metis add.assoc length_append length_drop le_add_diff_inverse less_imp_le_nat)
  have e2: "mids = []" if "length srec \<le> 16"
  proof -
    have "length mids = 0" using total e(1) that by linarith
    then show ?thesis by simp
  qed
  have e3: "length mids = (length srec - 8 + 7) div 8 - 1"
    using cnt long by simp
  have c1: "length srec \<le> 8 \<longrightarrow> ?frags = [srec] \<and> ?kinds = [MSG_srec_end_ok]"
    using long by simp
  have c2: "8 < length srec \<and> length srec \<le> 16 \<longrightarrow>
           ?frags = [take 8 srec, drop 8 srec] \<and> ?kinds = [MSG_srec_start_ok, MSG_srec_end_ok]"
    using e2 cat by auto
  have c3: "16 < length srec \<longrightarrow>
           (\<exists>ms x.
              ?frags = take 8 srec # ms @ [x] \<and>
              length ms = (length srec - 8 + 7) div 8 - 1 \<and>
              (\<forall>d \<in> set ms. length d = 8) \<and>
              0 < length x \<and> length x \<le> 8 \<and>
              ?kinds = MSG_srec_start_ok # replicate (length ms) MSG_srec_cont_ok
                        @ [MSG_srec_end_ok])"
    using e3 mids e by blast
  show ?thesis
    unfolding fragmented_def a
    using b c d c1 c2 c3 by blast
qed

text \<open>
  The body of the loop over the memory records: when it gets through a record \<open>srec\<close>,
  what it has added to the log are the exchanges of the fragments of \<open>srec\<close>.
\<close>

lemma program_record_Inr:
  assumes "program_record m srec w = (Inr u, w')"
  shows "\<exists>es. log w' = log w @ es \<and> fragmented srec es"
proof (cases "8 < length srec")
  case False
  with assms obtain s2 w2 s3 where
    mid: "middle_fragments srec w = (Inr s2, w2)" and
    fin: "send_fragment MSG_srec_end_ok s2 w2 = (Inr s3, w')"
    by (auto simp: program_record_def split: if_splits prod.splits sum.splits)
  from mid False have "s2 = srec" "w2 = w"
    by (simp_all add: middle_fragments.simps [of srec w])
  with send_fragment_Inr [OF fin] False obtain r where
    "log w' = log w @ exchange (MSG_srecord srec) r" "accepts MSG_srec_end_ok r"
    by auto
  with False fragmented_short [of srec r] show ?thesis by auto
next
  case True
  with assms obtain s1 w1 s2 w2 s3 where
    start: "send_fragment MSG_srec_start_ok srec w = (Inr s1, w1)" and
    mid: "middle_fragments s1 w1 = (Inr s2, w2)" and
    fin: "send_fragment MSG_srec_end_ok s2 w2 = (Inr s3, w')"
    by (auto simp: program_record_def split: if_splits prod.splits sum.splits)
  from send_fragment_Inr [OF start] obtain r0 where
    s1: "s1 = drop 8 srec" and
    log1: "log w1 = log w @ exchange (MSG_srecord (take 8 srec)) r0" and
    acc0: "accepts MSG_srec_start_ok r0"
    by blast
  from middle_fragments_Inr [OF mid] obtain mids rsps where
    m: "log w2 = log w1 @ concat (map2 (\<lambda>d r. exchange (MSG_srecord d) r) mids rsps)"
       "length rsps = length mids"
       "list_all2 accepts (replicate (length mids) MSG_srec_cont_ok) rsps"
       "s1 = concat mids @ s2"
       "\<forall>d \<in> set mids. length d = 8"
       "length s2 \<le> 8" "0 < length s1 \<longrightarrow> 0 < length s2"
       "length mids = (length s1 - 1) div 8"
    by blast
  from send_fragment_Inr [OF fin] m(6) obtain r1 where
    log3: "log w' = log w2 @ exchange (MSG_srecord s2) r1" and
    acc1: "accepts MSG_srec_end_ok r1"
    by auto
  have pos: "0 < length s2" using m(7) s1 True by simp
  have cnt: "length mids = (length srec - 8 - 1) div 8" using m(8) s1 by simp
  have cat: "drop 8 srec = concat mids @ s2" using m(4) s1 by simp
  from fragmented_long [OF True m(5) cnt cat pos m(6) m(2) acc0 m(3) acc1]
  show ?thesis using log1 m(1) log3 by auto
qed

lemma program_records_Inr:
  assumes "program_records m recs w = (Inr u, w')"
  shows "\<exists>ess. list_all2 fragmented recs ess \<and> log w' = log w @ concat ess"
  using assms
proof (induction recs arbitrary: w)
  case Nil
  then show ?case by simp
next
  case (Cons srec recs)
  from Cons.prems obtain u1 w1 where
    one: "program_record m srec w = (Inr u1, w1)" and
    rest: "program_records m recs w1 = (Inr u, w')"
    by (auto split: prod.splits sum.splits)
  from program_record_Inr [OF one] obtain es where
    es: "log w1 = log w @ es" "fragmented srec es"
    by blast
  from Cons.IH [OF rest] obtain ess where
    ess: "list_all2 fragmented recs ess" "log w' = log w1 @ concat ess"
    by blast
  have "list_all2 fragmented (srec # recs) (es # ess)"
    using es(2) ess(1) by simp
  moreover have "log w' = log w @ concat (es # ess)"
    using es(1) ess(2) by simp
  ultimately show ?case by blast
qed

lemma u_program_Inr:
  assumes "u_program m records w = (Inr u, w')"
  shows "\<exists>ess t. list_all2 fragmented (butlast records) ess \<and> accepts MSG_srecords_done t \<and>
                 log w' = log w @ concat ess @ exchange (MSG_srecord (last records)) t"
proof -
  from assms obtain u1 w1 where
    recs: "program_records m (butlast records) w = (Inr u1, w1)"
    by (auto simp: u_program_def split: if_splits prod.splits sum.splits)
  from assms recs obtain t where
    cmd: "u_cmd (MSG_srecord (last records)) None w1 = (Inr t, w')" and
    acc: "accepts MSG_srecords_done t"
    by (auto simp: u_program_def accepts_iff split: if_splits prod.splits sum.splits)
  from program_records_Inr [OF recs] obtain ess where
    ess: "list_all2 fragmented (butlast records) ess" "log w1 = log w @ concat ess"
    by blast
  have "log w' = log w @ concat ess @ exchange (MSG_srecord (last records)) t"
    using u_cmd_None_Inr [OF cmd] ess(2) by simp
  with ess(1) acc show ?thesis by blast
qed

lemma accepts_filter:
  assumes "accepts k r"
  shows "arbitration_id r \<in> set RECEIVE_FILTER"
proof -
  have "rx_expected_id k = ACK_ID \<or> rx_expected_id k = RSP_ID"
    by (cases k) simp_all
  moreover from assms have "arbitration_id r = rx_expected_id k"
    by (auto simp: accepts_iff rx_init_def RXMessage_def split: sum.splits if_splits)
  ultimately show ?thesis by (auto simp: RECEIVE_FILTER_def)
qed

lemma u_cmd_arrives:
  assumes "bus w = Arrives r # rest" and "arbitration_id r \<in> set RECEIVE_FILTER"
  shows "\<exists>w'. u_cmd msg None w = (Inr r, w') \<and> bus w' = rest"
  using assms by (simp add: u_cmd_def recv_def send_def)

lemma send_fragment_arrives:
  assumes "bus w = Arrives r # rest" and "accepts k r"
  shows "\<exists>w'. send_fragment k srec w = (Inr (drop 8 srec), w') \<and> bus w' = rest"
proof -
  from u_cmd_arrives [OF assms(1) accepts_filter [OF assms(2)]] obtain w' where
    "u_cmd (MSG_srecord (take 8 srec)) None w = (Inr r, w')" "bus w' = rest"
    by blast
  moreover from assms(2) obtain v where "rx_init k r = Inr v"
    by (auto simp: accepts_iff)
  ultimately show ?thesis by (simp add: send_fragment_def)
qed

lemma middle_fragments_arrive:
  assumes "bus w = map Arrives rs @ rest"
    and "list_all2 accepts (replicate ((length srec - 1) div 8) MSG_srec_cont_ok) rs"
  shows "\<exists>w' srec'. middle_fragments srec w = (Inr srec', w') \<and> bus w' = rest"
  using assms
proof (induction srec w arbitrary: rs rule: middle_fragments.induct)
  case (1 srec w)
  show ?case
  proof (cases "8 < length srec")
    case False
    then have "(length srec - 1) div 8 = 0" by simp
    with "1.prems" have "rs = []" by simp
    with "1.prems" False show ?thesis
      by (simp add: middle_fragments.simps [of srec w])
  next
    case True
    then have cnt: "(length srec - 1) div 8 = Suc ((length (drop 8 srec) - 1) div 8)"
      by simp
    from "1.prems"(2) obtain r rs' where
      rs: "rs = r # rs'" and r: "accepts MSG_srec_cont_ok r" and
      rs': "list_all2 accepts (replicate ((length (drop 8 srec) - 1) div 8) MSG_srec_cont_ok) rs'"
      unfolding cnt by (auto simp: list_all2_Cons1)
    have b: "bus w = Arrives r # (map Arrives rs' @ rest)"
      using "1.prems"(1) rs by simp
    from send_fragment_arrives [OF b r, of srec] obtain w1 where
      step: "send_fragment MSG_srec_cont_ok srec w = (Inr (drop 8 srec), w1)" and
      b1: "bus w1 = map Arrives rs' @ rest"
      by blast
    from "1.IH" [OF True step [symmetric] refl b1 rs'] obtain w' srec' where
      "middle_fragments (drop 8 srec) w1 = (Inr srec', w')" "bus w' = rest"
      by blast
    with True step show ?thesis
      by (simp add: middle_fragments.simps [of srec w])
  qed
qed

lemma program_record_arrive:
  assumes "bus w = map Arrives rs @ rest"
    and "list_all2 accepts (expected_replies srec) rs"
    and "u_verbose m \<longrightarrow> decodes_utf8 (take 2 srec)"
  shows "\<exists>w'. program_record m srec w = (Inr (), w') \<and> bus w' = rest"
proof (cases "8 < length srec")
  case False
  with assms(2) obtain r where rs: "rs = [r]" and r: "accepts MSG_srec_end_ok r"
    by (auto simp: expected_replies_def list_all2_Cons1)
  have b: "bus w = Arrives r # rest" using assms(1) rs by simp
  from send_fragment_arrives [OF b r, of srec] obtain w' where
    "send_fragment MSG_srec_end_ok srec w = (Inr (drop 8 srec), w')" "bus w' = rest"
    by blast
  with False assms(3) show ?thesis
    by (simp add: program_record_def middle_fragments.simps [of srec w])
next
  case True
  then have cnt: "(length srec - 8 + 7) div 8 - 1 = (length (drop 8 srec) - 1) div 8"
    by simp
  from assms(2) True obtain r0 ms r1 where
    rs: "rs = r0 # ms @ [r1]" and r0: "accepts MSG_srec_start_ok r0" and
    ms: "list_all2 accepts (replicate ((length (drop 8 srec) - 1) div 8) MSG_srec_cont_ok) ms" and
    r1: "accepts MSG_srec_end_ok r1"
    unfolding expected_replies_def cnt
    by (auto simp: list_all2_Cons1 list_all2_append1)
  have b: "bus w = Arrives r0 # (map Arrives ms @ (Arrives r1 # rest))"
    using assms(1) rs by simp
  from send_fragment_arrives [OF b r0, of srec] obtain w1 where
    start: "send_fragment MSG_srec_start_ok srec w = (Inr (drop 8 srec), w1)" and
    b1: "bus w1 = map Arrives ms @ (Arrives r1 # rest)"
    by blast
  from middle_fragments_arrive [OF b1 ms] obtain w2 srec2 where
    mid: "middle_fragments (drop 8 srec) w1 = (Inr srec2, w2)" and
    b2: "bus w2 = Arrives r1 # rest"
    by blast
  from send_fragment_arrives [OF b2 r1, of srec2] obtain w3 where
    "send_fragment MSG_srec_end_ok srec2 w2 = (Inr (drop 8 srec2), w3)" "bus w3 = rest"
    by blast
  with True start mid assms(3) show ?thesis
    by (simp add: program_record_def)
qed

lemma program_records_arrive:
  assumes "bus w = map Arrives rs @ rest"
    and "list_all2 accepts (concat (map expected_replies recs)) rs"
    and "u_verbose m \<longrightarrow> (\<forall>srec \<in> set recs. decodes_utf8 (take 2 srec))"
  shows "\<exists>w'. program_records m recs w = (Inr (), w') \<and> bus w' = rest"
  using assms
proof (induction recs arbitrary: w rs)
  case Nil
  then show ?case by simp
next
  case (Cons srec recs)
  from Cons.prems(2) obtain rs1 rs2 where
    rs: "rs = rs1 @ rs2" and
    rs1: "list_all2 accepts (expected_replies srec) rs1" and
    rs2: "list_all2 accepts (concat (map expected_replies recs)) rs2"
    by (auto simp: list_all2_append1)
  have b: "bus w = map Arrives rs1 @ (map Arrives rs2 @ rest)"
    using Cons.prems(1) rs by simp
  have v: "u_verbose m \<longrightarrow> decodes_utf8 (take 2 srec)"
    using Cons.prems(3) by simp
  from program_record_arrive [OF b rs1 v] obtain w1 where
    one: "program_record m srec w = (Inr (), w1)" and b1: "bus w1 = map Arrives rs2 @ rest"
    by blast
  have v2: "u_verbose m \<longrightarrow> (\<forall>srec \<in> set recs. decodes_utf8 (take 2 srec))"
    using Cons.prems(3) by simp
  from Cons.IH [OF b1 rs2 v2] obtain w' where
    "program_records m recs w1 = (Inr (), w')" "bus w' = rest"
    by blast
  with one show ?case by simp
qed

lemma u_program_arrive:
  assumes "records \<noteq> []"
    and "u_verbose m \<longrightarrow> (\<forall>srec \<in> set (butlast records). decodes_utf8 (take 2 srec))"
    and "bus w = map Arrives rs @ rest"
    and "list_all2 accepts
           (concat (map expected_replies (butlast records)) @ [MSG_srecords_done]) rs"
  shows "\<exists>w'. u_program m records w = (Inr (), w') \<and> bus w' = rest"
proof -
  from assms(4) obtain rs1 t where
    rs: "rs = rs1 @ [t]" and
    rs1: "list_all2 accepts (concat (map expected_replies (butlast records))) rs1" and
    t: "accepts MSG_srecords_done t"
    by (auto simp: list_all2_append1 list_all2_Cons1)
  have b: "bus w = map Arrives rs1 @ (Arrives t # rest)"
    using assms(3) rs by simp
  from program_records_arrive [OF b rs1 assms(2)] obtain w1 where
    recs: "program_records m (butlast records) w = (Inr (), w1)" and
    b1: "bus w1 = Arrives t # rest"
    by blast
  from u_cmd_arrives [OF b1 accepts_filter [OF t]] obtain w' where
    cmd: "u_cmd (MSG_srecord (last records)) None w1 = (Inr t, w')" and b2: "bus w' = rest"
    by blast
  from t obtain v where "rx_init MSG_srecords_done t = Inr v"
    by (auto simp: accepts_iff)
  with assms(1) recs cmd b2 show ?thesis
    by (simp add: u_program_def)
qed

text \<open>
  Claim C1. \<^verbatim>\<open>_program\<close> takes all records but the last as memory records. Whenever it
  returns, what it has added to the log is, for each memory record in order, the exchanges
  of the fragments of that record, and then the exchange of the terminal record: for
  \<open>L \<le> 8\<close> one frame with the whole record, answered by \<^verbatim>\<open>srec_end_ok\<close>; for \<open>8 < L \<le> 16\<close>
  the first 8 bytes (\<^verbatim>\<open>srec_start_ok\<close>) and the rest (\<^verbatim>\<open>srec_end_ok\<close>); for \<open>L > 16\<close> the
  first 8 bytes, \<open>\<lceil>(L - 8) / 8\<rceil> - 1\<close> fragments of 8 bytes (\<^verbatim>\<open>srec_cont_ok\<close> each) and an end
  fragment of 1 to 8 bytes; the fragments concatenated are the record. And it does return,
  having taken these replies from the bus, whenever the bus delivers for every fragment a
  reply of the kind expected for it and then \<^verbatim>\<open>srecords_done\<close> (with \<^verbatim>\<open>--verbose\<close>, when
  the first two bytes of every memory record can be printed).
\<close>

theorem program_fragments:
  "(u_program m records w = (Inr (), w') \<longrightarrow>
      (\<exists>ess t. list_all2 fragmented (butlast records) ess \<and> accepts MSG_srecords_done t \<and>
               log w' = log w @ concat ess @ exchange (MSG_srecord (last records)) t)) \<and>
   (records \<noteq> [] \<and>
    (u_verbose m \<longrightarrow> (\<forall>srec \<in> set (butlast records). decodes_utf8 (take 2 srec))) \<and>
    bus w = map Arrives rs @ rest \<and>
    list_all2 accepts (concat (map expected_replies (butlast records)) @ [MSG_srecords_done]) rs
    \<longrightarrow> (\<exists>w1. u_program m records w = (Inr (), w1) \<and> bus w1 = rest))"
  using u_program_Inr [of m records w "()" w'] u_program_arrive [of records m w rs rest]
  by blast

theorem program_fragments_witness:
  "u_program module_1
     [[1, 2, 3],
      [1, 2, 3, 4, 5, 6, 7, 8, 9, 10, 11, 12],
      [1, 2, 3, 4, 5, 6, 7, 8, 9, 10, 11, 12, 13, 14, 15, 16, 17],
      [0x53, 0x39]]
     (delivering [srec_end_ok, srec_start_ok, srec_end_ok, srec_start_ok, srec_cont_ok,
                  srec_end_ok, srecords_done_ok])
   = (Inr (),
      \<lparr>bus = [], clock = [],
       log = [Sent (Message SREC_ID [1, 2, 3]), Received (Some srec_end_ok),
              Sent (Message SREC_ID [1, 2, 3, 4, 5, 6, 7, 8]), Received (Some srec_start_ok),
              Sent (Message SREC_ID [9, 10, 11, 12]), Received (Some srec_end_ok),
              Sent (Message SREC_ID [1, 2, 3, 4, 5, 6, 7, 8]), Received (Some srec_start_ok),
              Sent (Message SREC_ID [9, 10, 11, 12, 13, 14, 15, 16]),
              Received (Some srec_cont_ok),
              Sent (Message SREC_ID [17]), Received (Some srec_end_ok),
              Sent (Message SREC_ID [0x53, 0x39]), Received (Some srecords_done_ok)]\<rparr>) \<and>
   (\<exists>ess t.
      list_all2 fragmented
        [[1, 2, 3],
         [1, 2, 3, 4, 5, 6, 7, 8, 9, 10, 11, 12],
         [1, 2, 3, 4, 5, 6, 7, 8, 9, 10, 11, 12, 13, 14, 15, 16, 17]] ess \<and>
      accepts MSG_srecords_done t \<and>
      [Sent (Message SREC_ID [1, 2, 3]), Received (Some srec_end_ok),
       Sent (Message SREC_ID [1, 2, 3, 4, 5, 6, 7, 8]), Received (Some srec_start_ok),
       Sent (Message SREC_ID [9, 10, 11, 12]), Received (Some srec_end_ok),
       Sent (Message SREC_ID [1, 2, 3, 4, 5, 6, 7, 8]), Received (Some srec_start_ok),
       Sent (Message SREC_ID [9, 10, 11, 12, 13, 14, 15, 16]), Received (Some srec_cont_ok),
       Sent (Message SREC_ID [17]), Received (Some srec_end_ok),
       Sent (Message SREC_ID [0x53, 0x39]), Received (Some srecords_done_ok)]
        = concat ess @ exchange (MSG_srecord [0x53, 0x39]) t) \<and>
   (\<exists>w1. u_program module_1
           [[1, 2, 3],
            [1, 2, 3, 4, 5, 6, 7, 8, 9, 10, 11, 12],
            [1, 2, 3, 4, 5, 6, 7, 8, 9, 10, 11, 12, 13, 14, 15, 16, 17],
            [0x53, 0x39]]
           (delivering [srec_end_ok, srec_start_ok, srec_end_ok, srec_start_ok, srec_cont_ok,
                        srec_end_ok, srecords_done_ok])
         = (Inr (), w1) \<and> bus w1 = [])"
proof -
  let ?records = "[[1, 2, 3],
      [1, 2, 3, 4, 5, 6, 7, 8, 9, 10, 11, 12],
      [1, 2, 3, 4, 5, 6, 7, 8, 9, 10, 11, 12, 13, 14, 15, 16, 17],
      [0x53, 0x39]] :: byte list list"
  let ?rs = "[srec_end_ok, srec_start_ok, srec_end_ok, srec_start_ok, srec_cont_ok,
              srec_end_ok, srecords_done_ok]"
  let ?es = "[Sent (Message SREC_ID [1, 2, 3]), Received (Some srec_end_ok),
              Sent (Message SREC_ID [1, 2, 3, 4, 5, 6, 7, 8]), Received (Some srec_start_ok),
              Sent (Message SREC_ID [9, 10, 11, 12]), Received (Some srec_end_ok),
              Sent (Message SREC_ID [1, 2, 3, 4, 5, 6, 7, 8]), Received (Some srec_start_ok),
              Sent (Message SREC_ID [9, 10, 11, 12, 13, 14, 15, 16]),
              Received (Some srec_cont_ok),
              Sent (Message SREC_ID [17]), Received (Some srec_end_ok),
              Sent (Message SREC_ID [0x53, 0x39]), Received (Some srecords_done_ok)]"
  let ?w' = "\<lparr>bus = [], clock = [], log = ?es\<rparr>"
  note inst = program_fragments [where m = module_1 and records = ?records
      and w = "delivering ?rs" and w' = ?w' and rs = ?rs and rest = "[]"]
  have run: "u_program module_1 ?records (delivering ?rs) = (Inr (), ?w')"
    by (simp add: u_program_def program_record_def send_fragment_def middle_fragments.simps
          example_defs tx_defs rx_defs io_defs id_defs)
  have hyp: "?records \<noteq> [] \<and>
    (u_verbose module_1 \<longrightarrow> (\<forall>srec \<in> set (butlast ?records). decodes_utf8 (take 2 srec))) \<and>
    bus (delivering ?rs) = map Arrives ?rs @ [] \<and>
    list_all2 accepts (concat (map expected_replies (butlast ?records)) @ [MSG_srecords_done]) ?rs"
    by (simp add: expected_replies_def accepts_def Message_def example_defs rx_defs id_defs)
  from inst run have 1: "\<exists>ess t.
      list_all2 fragmented (butlast ?records) ess \<and> accepts MSG_srecords_done t \<and>
      log ?w' = log (delivering ?rs) @ concat ess @ exchange (MSG_srecord (last ?records)) t"
    by blast
  from inst hyp have 2: "\<exists>w1. u_program module_1 ?records (delivering ?rs) = (Inr (), w1) \<and>
                              bus w1 = []"
    by blast
  from 1 have 3: "\<exists>ess t.
      list_all2 fragmented
        [[1, 2, 3],
         [1, 2, 3, 4, 5, 6, 7, 8, 9, 10, 11, 12],
         [1, 2, 3, 4, 5, 6, 7, 8, 9, 10, 11, 12, 13, 14, 15, 16, 17]] ess \<and>
      accepts MSG_srecords_done t \<and>
      ?es = concat ess @ exchange (MSG_srecord [0x53, 0x39]) t"
    by (simp add: delivering_def)
  from run 3 2 show ?thesis by blast
qed

subsection \<open>C2: EEPROM write\<close>

text \<open>
  Claim C2 (the code departs from it). The claim: a buffer written at address A goes out
  in chunks of at most 6 bytes, each in an EEPROM-ID frame that starts with the address of
  its chunk (A plus the bytes already sent), each acknowledged, and \<^verbatim>\<open>close_eeprom\<close> last.
  The code, with a module that acknowledges every step: \<^verbatim>\<open>_write_eeprom(0x10, 7 bytes)\<close>
  selects the module and then raises \<^verbatim>\<open>struct.error\<close> while it builds the write-enable
  command, so that no EEPROM-ID frame is sent and the acknowledgements stay on the bus.
  And its loop over the chunks, run on its own, sends both chunks with the address 0x10:
  the second one is not at 0x16.
\<close>

theorem write_eeprom_sends_no_data:
  "u_write_eeprom module_1 0x10 [1, 2, 3, 4, 5, 6, 7]
     (delivering [selected_1, eeprom_open_ok, eeprom_write_ok, eeprom_write_ok, eeprom_closed_ok])
   = (Inl StructError,
      \<lparr>bus = map Arrives [eeprom_open_ok, eeprom_write_ok, eeprom_write_ok, eeprom_closed_ok],
       clock = [],
       log = [Sent select_1, Received (Some selected_1)]\<rparr>)
   \<and> write_loop 0x10 [1, 2, 3, 4, 5, 6, 7] (delivering [eeprom_write_ok, eeprom_write_ok])
   = (Inr (),
      \<lparr>bus = [], clock = [],
       log = [Sent (Message EEPROM_ID [0x00, 0x10, 1, 2, 3, 4, 5, 6]),
              Received (Some eeprom_write_ok),
              Sent (Message EEPROM_ID [0x00, 0x10, 7]),
              Received (Some eeprom_write_ok)]\<rparr>)"
  by (simp add: u_write_eeprom_def u_select_def write_loop.simps example_defs tx_defs rx_defs
        io_defs id_defs)

subsection \<open>C3: select and the module ID of the reply\<close>

text \<open>
  Claim C3 (the code departs from it). The claim: a \<^verbatim>\<open>selected\<close> reply with another
  module ID aborts the operation with \<^verbatim>\<open>ModuleError\<close>. The code: the module 0x01020304
  gets the reply of the module 0x01020305 and \<^verbatim>\<open>_select\<close> ends in \<^verbatim>\<open>NameError\<close>, since
  the name \<^verbatim>\<open>CanError\<close> that it raises is not defined; nothing is sent after the select.
\<close>

theorem select_wrong_module_raises_NameError:
  "u_select module_1 (delivering [Message RSP_ID [0x21, 0x10, 1, 2, 3, 5, 0, 0]])
   = (Inl NameError,
      \<lparr>bus = [], clock = [],
       log = [Sent select_1, Received (Some (Message RSP_ID [0x21, 0x10, 1, 2, 3, 5, 0, 0]))]\<rparr>)"
  by (simp add: u_select_def example_defs tx_defs rx_defs io_defs id_defs)

subsection \<open>C4: EEPROM read\<close>

lemma advancing_Cons:
  assumes "advancing (A + c) reqs"
  shows "advancing A ((A, c) # reqs)"
  unfolding advancing_def
proof (intro conjI impI allI)
  show "fst (hd ((A, c) # reqs)) = A" by simp
next
  fix i
  assume i: "Suc i < length ((A, c) # reqs)"
  show "fst (((A, c) # reqs) ! Suc i) = fst (((A, c) # reqs) ! i) + snd (((A, c) # reqs) ! i)"
  proof (cases i)
    case 0
    with i have "reqs \<noteq> []" by auto
    with assms have "fst (hd reqs) = A + c" by (simp add: advancing_def)
    with 0 \<open>reqs \<noteq> []\<close> show ?thesis by (simp add: hd_conv_nth)
  next
    case (Suc j)
    with i have "Suc j < length reqs" by simp
    with assms have "fst (reqs ! Suc j) = fst (reqs ! j) + snd (reqs ! j)"
      by (simp add: advancing_def)
    with Suc show ?thesis by simp
  qed
qed

lemma read_loop_run:
  assumes "read_loop A N acc w = (Inr bs, w')" and "0 \<le> N"
  shows "\<exists>reqs cmds rs.
        length reqs = nat ((N + 7) div 8) \<and>
        (\<forall>q \<in> set reqs. 0 < snd q \<and> snd q \<le> 8) \<and>
        sum_list (map snd reqs) = N \<and>
        advancing A reqs \<and>
        map (\<lambda>q. MSG_read_eeprom (fst q) (snd q)) reqs = map Inr cmds \<and>
        length rs = length reqs \<and>
        log w' = log w @ concat (map2 exchange cmds rs) \<and>
        (\<forall>r \<in> set rs. arbitration_id r = DATA_ID) \<and>
        bs = acc @ concat (map data rs) \<and>
        (list_all2 full_reply reqs rs \<longrightarrow> int (length (concat (map data rs))) = N)"
  using assms
proof (induction A N acc w rule: read_loop.induct)
  case (1 address len result w)
  show ?case
  proof (cases "len > 0")
    case False
    with "1.prems" have "len = 0" "bs = result" "w' = w"
      by (simp_all add: read_loop.simps [of address len result w])
    then show ?thesis
      by (intro exI [of _ "[]"]) (simp add: advancing_def)
  next
    case True
    define c where "c = (if len \<le> 8 then len else 8)"
    have c: "0 < c" "c \<le> 8" "0 \<le> len - c"
      using True by (auto simp: c_def)
    have count: "nat ((len + 7) div 8) = Suc (nat ((len - c + 7) div 8))"
      using True by (auto simp: c_def)
    from "1.prems"(1) True obtain msg where msg: "MSG_read_eeprom address c = Inr msg"
      by (cases "MSG_read_eeprom address c")
        (auto simp: read_loop.simps [of address len result w] c_def)
    obtain r1 w1 where cmd: "u_cmd msg None w = (r1, w1)"
      by (cases "u_cmd msg None w")
    from "1.prems"(1) True msg cmd obtain rsp where r1: "r1 = Inr rsp"
      by (cases r1) (auto simp: read_loop.simps [of address len result w] c_def)
    from "1.prems"(1) True msg cmd r1 have id: "arbitration_id rsp = DATA_ID"
      by (auto simp: read_loop.simps [of address len result w] c_def split: if_splits)
    from "1.prems"(1) True msg cmd r1 id
    have rest: "read_loop (address + c) (len - c) (result @ data rsp) w1 = (Inr bs, w')"
      by (auto simp: read_loop.simps [of address len result w] c_def split: if_splits)
    have lg: "log w1 = log w @ exchange msg rsp"
      using u_cmd_Inr [of msg None w rsp w1] cmd r1 by (simp add: exchange_def)
    have nid: "\<not> arbitration_id rsp \<noteq> DATA_ID" using id by simp
    from "1.IH" [OF True msg [unfolded c_def] cmd [symmetric] r1 nid, folded c_def, OF rest c(3)]
    obtain reqs cmds rs where ih:
      "length reqs = nat ((len - c + 7) div 8)"
      "\<forall>q \<in> set reqs. 0 < snd q \<and> snd q \<le> 8"
      "sum_list (map snd reqs) = len - c"
      "advancing (address + c) reqs"
      "map (\<lambda>q. MSG_read_eeprom (fst q) (snd q)) reqs = map Inr cmds"
      "length rs = length reqs"
      "log w' = log w1 @ concat (map2 exchange cmds rs)"
      "\<forall>r \<in> set rs. arbitration_id r = DATA_ID"
      "bs = (result @ data rsp) @ concat (map data rs)"
      "list_all2 full_reply reqs rs \<longrightarrow> int (length (concat (map data rs))) = len - c"
      by blast
    let ?reqs = "(address, c) # reqs" and ?cmds = "msg # cmds" and ?rs = "rsp # rs"
    have 1: "length ?reqs = nat ((len + 7) div 8)"
      using ih(1) count by simp
    have 2: "\<forall>q \<in> set ?reqs. 0 < snd q \<and> snd q \<le> 8"
      using ih(2) c by simp
    have 3: "sum_list (map snd ?reqs) = len"
      using ih(3) by simp
    have 4: "advancing address ?reqs"
      using ih(4) by (rule advancing_Cons)
    have 5: "map (\<lambda>q. MSG_read_eeprom (fst q) (snd q)) ?reqs = map Inr ?cmds"
      using ih(5) msg by simp
    have 6: "length ?rs = length ?reqs"
      using ih(6) by simp
    have 7: "log w' = log w @ concat (map2 exchange ?cmds ?rs)"
      using ih(7) lg by simp
    have 8: "\<forall>r \<in> set ?rs. arbitration_id r = DATA_ID"
      using ih(8) id by simp
    have 9: "bs = result @ concat (map data ?rs)"
      using ih(9) by simp
    have 10: "list_all2 full_reply ?reqs ?rs \<longrightarrow> int (length (concat (map data ?rs))) = len"
      using ih(10) by (auto simp: full_reply_def)
    from 1 2 3 4 5 6 7 8 9 10 show ?thesis by blast
  qed
qed

lemma u_select_Inr:
  assumes "u_select m w = (Inr sv, w')"
  shows "\<exists>sel r. MSG_select (u_module_id m) = Inr sel \<and> accepts MSG_selected r \<and>
                 log w' = log w @ exchange sel r"
proof -
  from assms obtain sel where sel: "MSG_select (u_module_id m) = Inr sel"
    by (cases "MSG_select (u_module_id m)") (auto simp: u_select_def)
  obtain r1 w1 where cmd: "u_cmd sel None w = (r1, w1)"
    by (cases "u_cmd sel None w")
  from assms sel cmd obtain r where r1: "r1 = Inr r"
    by (cases r1) (auto simp: u_select_def)
  from assms sel cmd r1 have w1: "w1 = w'"
    by (auto simp: u_select_def split: sum.splits if_splits)
  from assms sel cmd r1 obtain v where "selected_init r = Inr v"
    by (cases "selected_init r") (auto simp: u_select_def)
  then have acc: "accepts MSG_selected r"
    by (auto simp: accepts_iff selected_init_def split: sum.splits)
  have "log w' = log w @ exchange sel r"
    using u_cmd_Inr [of sel None w r w1] cmd r1 w1 by (simp add: exchange_def)
  with sel acc show ?thesis by blast
qed

text \<open>
  A module answers the read of 4 bytes at address 4 with a \<^verbatim>\<open>DATA_ID\<close> frame of 2 bytes:
  \<^verbatim>\<open>_read_eeprom\<close> returns these 2 bytes.
\<close>

theorem read_eeprom_returns_short_reply:
  "u_read_eeprom module_1 4 4 (delivering [selected_1, Message DATA_ID [1, 2]])
   = (Inr [1, 2],
      \<lparr>bus = [], clock = [],
       log = [Sent select_1, Received (Some selected_1),
              Sent (Message CMD_ID [0x20, 0x03, 0, 4, 4]),
              Received (Some (Message DATA_ID [1, 2]))]\<rparr>)"
  by (simp add: u_read_eeprom_def read_loop.simps u_select_def
        example_defs tx_defs rx_defs io_defs id_defs)

text \<open>
  Claim C4, amended. When \<^verbatim>\<open>_read_eeprom\<close> is asked for \<open>N > 0\<close> bytes at \<open>A\<close> and returns
  \<open>bs\<close>, it has added to the log the exchange of the select and then \<open>\<lceil>N / 8\<rceil>\<close> exchanges
  of \<^verbatim>\<open>read_eeprom\<close> commands, whose counts are at most 8 and sum to \<open>N\<close>, the address of
  each advanced by the count of the one before; \<open>bs\<close> is the concatenation of the payloads
  of the replies, which is \<open>N\<close> bytes when every reply carries as many bytes as its command
  asks for.
\<close>

theorem read_eeprom_chunks:
  assumes "u_read_eeprom m A N w = (Inr bs, w')" and "0 < N"
  shows "\<exists>sel r es.
           MSG_select (u_module_id m) = Inr sel \<and> accepts MSG_selected r \<and>
           log w' = log w @ exchange sel r @ es \<and> chunked_read A N es bs"
proof -
  obtain r0 w0 where s: "u_select m w = (r0, w0)"
    by (cases "u_select m w")
  from assms(1) s obtain sv where r0: "r0 = Inr sv"
    by (cases r0) (auto simp: u_read_eeprom_def)
  from assms(1) s r0 have loop: "read_loop A N [] w0 = (Inr bs, w')"
    by (simp add: u_read_eeprom_def)
  from u_select_Inr [OF s [unfolded r0]] obtain sel r where sel:
    "MSG_select (u_module_id m) = Inr sel" "accepts MSG_selected r"
    "log w0 = log w @ exchange sel r"
    by blast
  from assms(2) have "0 \<le> N" by simp
  from read_loop_run [OF loop this] obtain reqs cmds rs where run:
    "length reqs = nat ((N + 7) div 8)"
    "\<forall>q \<in> set reqs. 0 < snd q \<and> snd q \<le> 8"
    "sum_list (map snd reqs) = N"
    "advancing A reqs"
    "map (\<lambda>q. MSG_read_eeprom (fst q) (snd q)) reqs = map Inr cmds"
    "length rs = length reqs"
    "log w' = log w0 @ concat (map2 exchange cmds rs)"
    "\<forall>r \<in> set rs. arbitration_id r = DATA_ID"
    "bs = [] @ concat (map data rs)"
    "list_all2 full_reply reqs rs \<longrightarrow> int (length (concat (map data rs))) = N"
    by blast
  have "chunked_read A N (concat (map2 exchange cmds rs)) bs"
    unfolding chunked_read_def using run by (intro exI [of _ reqs] exI [of _ cmds] exI [of _ rs]) simp
  moreover have "log w' = log w @ exchange sel r @ concat (map2 exchange cmds rs)"
    using run(7) sel(3) by simp
  ultimately show ?thesis using sel(1,2) by blast
qed

theorem read_eeprom_chunks_witness:
  "u_read_eeprom module_1 0x10 10
     (delivering [selected_1, Message DATA_ID [1, 2, 3, 4, 5, 6, 7, 8], Message DATA_ID [9, 10]])
   = (Inr [1, 2, 3, 4, 5, 6, 7, 8, 9, 10],
      \<lparr>bus = [], clock = [],
       log = [Sent select_1, Received (Some selected_1),
              Sent (Message CMD_ID [0x20, 0x03, 0, 0x10, 8]),
              Received (Some (Message DATA_ID [1, 2, 3, 4, 5, 6, 7, 8])),
              Sent (Message CMD_ID [0x20, 0x03, 0, 0x18, 2]),
              Received (Some (Message DATA_ID [9, 10]))]\<rparr>) \<and>
   (\<exists>sel r es.
      MSG_select (u_module_id module_1) = Inr sel \<and> accepts MSG_selected r \<and>
      [Sent select_1, Received (Some selected_1),
       Sent (Message CMD_ID [0x20, 0x03, 0, 0x10, 8]),
       Received (Some (Message DATA_ID [1, 2, 3, 4, 5, 6, 7, 8])),
       Sent (Message CMD_ID [0x20, 0x03, 0, 0x18, 2]),
       Received (Some (Message DATA_ID [9, 10]))] = exchange sel r @ es \<and>
      chunked_read 0x10 10 es [1, 2, 3, 4, 5, 6, 7, 8, 9, 10])"
proof -
  let ?w = "delivering [selected_1, Message DATA_ID [1, 2, 3, 4, 5, 6, 7, 8],
                        Message DATA_ID [9, 10]]"
  let ?es = "[Sent select_1, Received (Some selected_1),
              Sent (Message CMD_ID [0x20, 0x03, 0, 0x10, 8]),
              Received (Some (Message DATA_ID [1, 2, 3, 4, 5, 6, 7, 8])),
              Sent (Message CMD_ID [0x20, 0x03, 0, 0x18, 2]),
              Received (Some (Message DATA_ID [9, 10]))]"
  have run: "u_read_eeprom module_1 0x10 10 ?w
               = (Inr [1, 2, 3, 4, 5, 6, 7, 8, 9, 10], \<lparr>bus = [], clock = [], log = ?es\<rparr>)"
    by (simp add: u_read_eeprom_def read_loop.simps u_select_def
          example_defs tx_defs rx_defs io_defs id_defs)
  have pos: "(0::int) < 10"
    by simp
  from read_eeprom_chunks [OF run pos] obtain sel r es where
    "MSG_select (u_module_id module_1) = Inr sel" "accepts MSG_selected r"
    "log \<lparr>bus = [], clock = [], log = ?es\<rparr> = log ?w @ exchange sel r @ es"
    "chunked_read 0x10 10 es [1, 2, 3, 4, 5, 6, 7, 8, 9, 10]"
    by blast
  then have "\<exists>sel r es.
      MSG_select (u_module_id module_1) = Inr sel \<and> accepts MSG_selected r \<and>
      ?es = exchange sel r @ es \<and>
      chunked_read 0x10 10 es [1, 2, 3, 4, 5, 6, 7, 8, 9, 10]"
    by (auto simp: delivering_def)
  with run show ?thesis by blast
qed

subsection \<open>C5: the checks of a received message\<close>

text \<open>
  Field 1 of \<^verbatim>\<open>MSG_erase_done\<close> is not flagged by the filter, and a frame that differs
  from an accepted one in this field only is rejected.
\<close>

theorem erase_done_rejects_unfiltered_field:
  "accepts MSG_erase_done (Message RSP_ID [0x00, 0x00, 0x00, 0x01]) \<and>
   \<not> fst (rx_filter MSG_erase_done ! 1) \<and>
   rx_init MSG_erase_done (Message RSP_ID [0x00, 0x00, 0x05, 0x01]) = Inl (MessageError Check_status)"
  by (simp add: accepts_def rx_defs Message_def id_defs)

lemma unpack_items_length: "length (unpack_items f bs) = length f"
  by (induction f arbitrary: bs) auto

lemma rx_filter_length: "length (rx_filter k) = length (rx_format k)"
  by (cases k) auto

lemma check_filter_pass:
  assumes "index + length flt \<le> length values"
    and "\<forall>j < length flt. fst (flt ! j) \<longrightarrow> values ! (index + j) = snd (flt ! j)"
  shows "check_filter index flt values = Inr ()"
  using assms
proof (induction flt arbitrary: index)
  case Nil
  then show ?case by simp
next
  case (Cons a flt)
  obtain chk v where a: "a = (chk, v)" by (cases a)
  have rest: "\<forall>j < length flt. fst (flt ! j) \<longrightarrow> values ! (Suc index + j) = snd (flt ! j)"
    using Cons.prems(2) by (auto dest: spec [of _ "Suc j" for j])
  have tl: "check_filter (Suc index) flt values = Inr ()"
    using Cons.IH [of "Suc index"] Cons.prems(1) rest by simp
  have hd: "chk \<longrightarrow> values ! index = v"
    using Cons.prems(2) a by (auto dest: spec [of _ 0])
  show ?case using a tl hd Cons.prems(1) by auto
qed

lemma check_filter_fail:
  assumes "index + length flt \<le> length values"
    and "i < length flt" and "fst (flt ! i)" and "values ! (index + i) \<noteq> snd (flt ! i)"
    and "\<forall>j < i. fst (flt ! j) \<longrightarrow> values ! (index + j) = snd (flt ! j)"
  shows "check_filter index flt values = Inl (MessageError (Check_field (index + i)))"
  using assms
proof (induction flt arbitrary: index i)
  case Nil
  then show ?case by simp
next
  case (Cons a flt)
  obtain chk v where a: "a = (chk, v)" by (cases a)
  show ?case
  proof (cases i)
    case 0
    then show ?thesis using Cons.prems a by auto
  next
    case (Suc i')
    have rest: "\<forall>j < i'. fst (flt ! j) \<longrightarrow> values ! (Suc index + j) = snd (flt ! j)"
      using Cons.prems(5) Suc by (auto dest: spec [of _ "Suc j" for j])
    have tl: "check_filter (Suc index) flt values
                = Inl (MessageError (Check_field (Suc index + i')))"
      using Cons.IH [of "Suc index" i'] Cons.prems Suc rest by simp
    have hd: "chk \<longrightarrow> values ! index = v"
      using Cons.prems(5) a Suc by (auto dest: spec [of _ 0])
    show ?thesis using a tl hd Cons.prems(1) Suc by auto
  qed
qed

lemma accepts_flagged:
  assumes "accepts k raw"
  shows "well_sized k raw \<and> (\<forall>j. flagged k j \<longrightarrow> fields k raw ! j = expected k j)"
proof -
  from assms obtain v where v: "rx_init k raw = Inr v"
    by (auto simp: accepts_iff)
  then have sized: "well_sized k raw"
    by (auto simp: rx_init_def RXMessage_def well_sized_def unpack_def
          split: sum.splits if_splits)
  from v sized have pass: "check_filter 0 (rx_filter k) (fields k raw) = Inr ()"
    by (auto simp: rx_init_def RXMessage_def well_sized_def unpack_def fields_def
          split: sum.splits if_splits)
  have len: "0 + length (rx_filter k) \<le> length (fields k raw)"
    by (simp add: fields_def unpack_items_length rx_filter_length)
  have "fields k raw ! j = expected k j" if "flagged k j" for j
  proof (rule ccontr)
    assume "fields k raw ! j \<noteq> expected k j"
    with that have ex: "\<exists>i. flagged k i \<and> fields k raw ! i \<noteq> expected k i"
      by blast
    define i where "i = (LEAST i. flagged k i \<and> fields k raw ! i \<noteq> expected k i)"
    have i: "flagged k i \<and> fields k raw ! i \<noteq> expected k i"
      unfolding i_def using ex by (rule LeastI_ex)
    have least: "\<forall>j < i. flagged k j \<longrightarrow> fields k raw ! j = expected k j"
      unfolding i_def using not_less_Least by blast
    have "check_filter 0 (rx_filter k) (fields k raw)
            = Inl (MessageError (Check_field (0 + i)))"
      using i least by (intro check_filter_fail [OF len]) (auto simp: flagged_def expected_def)
    with pass show False by simp
  qed
  with sized show ?thesis by blast
qed

text \<open>
  Claim C5, amended. For every message kind: a frame with another ID raises
  \<^verbatim>\<open>MessageError\<close> for the ID, whatever else it holds; with the right ID and another
  \<^verbatim>\<open>dlc\<close>, for the length; a well sized frame whose first flagged field that differs
  from its constant is field \<open>i\<close> raises \<^verbatim>\<open>MessageError\<close> for field \<open>i\<close>; a well sized
  frame whose flagged fields all hold their constants is accepted with the unpacked values,
  unless it is an \<^verbatim>\<open>MSG_erase_done\<close> with a field 1 other than 0 and 0xff, which raises
  \<^verbatim>\<open>MessageError\<close> too. So a well sized frame \<open>raw'\<close> that agrees with an accepted frame
  on every flagged field is accepted when its status is in order.
\<close>

theorem rx_init_checks:
  "(arbitration_id raw \<noteq> rx_expected_id k \<longrightarrow> rx_init k raw = Inl (MessageError Check_id)) \<and>
   (arbitration_id raw = rx_expected_id k \<and> dlc raw \<noteq> calcsize (rx_format k) \<longrightarrow>
      rx_init k raw = Inl (MessageError Check_length)) \<and>
   (well_sized k raw \<and> flagged k i \<and> fields k raw ! i \<noteq> expected k i \<and>
    (\<forall>j < i. flagged k j \<longrightarrow> fields k raw ! j = expected k j) \<longrightarrow>
      rx_init k raw = Inl (MessageError (Check_field i))) \<and>
   (well_sized k raw \<and> (\<forall>j. flagged k j \<longrightarrow> fields k raw ! j = expected k j) \<longrightarrow>
      rx_init k raw = (if status_ok k (fields k raw) then Inr (fields k raw)
                       else Inl (MessageError Check_status))) \<and>
   (accepts k raw \<and> well_sized k raw' \<and> status_ok k (fields k raw') \<and>
    (\<forall>j. flagged k j \<longrightarrow> fields k raw' ! j = fields k raw ! j) \<longrightarrow>
      rx_init k raw' = Inr (fields k raw'))"
proof (intro conjI impI)
  assume "arbitration_id raw \<noteq> rx_expected_id k"
  then show "rx_init k raw = Inl (MessageError Check_id)"
    by (simp add: rx_init_def RXMessage_def)
next
  assume "arbitration_id raw = rx_expected_id k \<and> dlc raw \<noteq> calcsize (rx_format k)"
  then show "rx_init k raw = Inl (MessageError Check_length)"
    by (simp add: rx_init_def RXMessage_def)
next
  assume h: "well_sized k raw \<and> flagged k i \<and> fields k raw ! i \<noteq> expected k i \<and>
    (\<forall>j < i. flagged k j \<longrightarrow> fields k raw ! j = expected k j)"
  have len: "0 + length (rx_filter k) \<le> length (fields k raw)"
    by (simp add: fields_def unpack_items_length rx_filter_length)
  have "check_filter 0 (rx_filter k) (fields k raw) = Inl (MessageError (Check_field (0 + i)))"
    using h by (intro check_filter_fail [OF len]) (auto simp: flagged_def expected_def)
  with h show "rx_init k raw = Inl (MessageError (Check_field i))"
    by (simp add: rx_init_def RXMessage_def well_sized_def unpack_def fields_def)
next
  assume h: "well_sized k raw \<and> (\<forall>j. flagged k j \<longrightarrow> fields k raw ! j = expected k j)"
  have len: "0 + length (rx_filter k) \<le> length (fields k raw)"
    by (simp add: fields_def unpack_items_length rx_filter_length)
  have two: "k = MSG_erase_done \<Longrightarrow> 1 < length (fields k raw)"
    by (simp add: fields_def unpack_items_length)
  have "check_filter 0 (rx_filter k) (fields k raw) = Inr ()"
    using h by (intro check_filter_pass [OF len]) (auto simp: flagged_def expected_def)
  with h two show "rx_init k raw = (if status_ok k (fields k raw) then Inr (fields k raw)
                       else Inl (MessageError Check_status))"
    by (auto simp: rx_init_def RXMessage_def well_sized_def unpack_def fields_def status_ok_def)
next
  assume h: "accepts k raw \<and> well_sized k raw' \<and> status_ok k (fields k raw') \<and>
    (\<forall>j. flagged k j \<longrightarrow> fields k raw' ! j = fields k raw ! j)"
  then have same: "\<forall>j. flagged k j \<longrightarrow> fields k raw' ! j = expected k j"
    using accepts_flagged [of k raw] by simp
  have len: "0 + length (rx_filter k) \<le> length (fields k raw')"
    by (simp add: fields_def unpack_items_length rx_filter_length)
  have two: "k = MSG_erase_done \<Longrightarrow> 1 < length (fields k raw')"
    by (simp add: fields_def unpack_items_length)
  have "check_filter 0 (rx_filter k) (fields k raw') = Inr ()"
    using same by (intro check_filter_pass [OF len]) (auto simp: flagged_def expected_def)
  with h two show "rx_init k raw' = Inr (fields k raw')"
    by (auto simp: rx_init_def RXMessage_def well_sized_def unpack_def fields_def status_ok_def)
qed

lemma flagged_simps:
  "flagged MSG_erase_done j \<longleftrightarrow> j = 0 \<or> j = 2"
  "flagged MSG_selected j \<longleftrightarrow> j = 0"
  by (auto simp: flagged_def nth_Cons split: nat.splits)

theorem rx_init_checks_witness:
  "rx_init MSG_erase_done (Message ACK_ID [0x00, 0x00, 0x00, 0x01]) = Inl (MessageError Check_id) \<and>
   rx_init MSG_erase_done (Message RSP_ID [0x00, 0x00, 0x01]) = Inl (MessageError Check_length) \<and>
   rx_init MSG_erase_done (Message RSP_ID [0x00, 0x00, 0x00, 0x02])
     = Inl (MessageError (Check_field 2)) \<and>
   rx_init MSG_erase_done (Message RSP_ID [0x00, 0x00, 0x05, 0x01])
     = Inl (MessageError Check_status) \<and>
   rx_init MSG_selected (Message RSP_ID [0x21, 0x10, 1, 2, 3, 5, 0, 7])
     = Inr [VInt 0x2110, VInt 0x01020305, VInt 7]"
proof -
  have a: "arbitration_id (Message ACK_ID [0x00, 0x00, 0x00, 0x01]) \<noteq> rx_expected_id MSG_erase_done"
    by (simp add: Message_def id_defs)
  have b: "arbitration_id (Message RSP_ID [0x00, 0x00, 0x01]) = rx_expected_id MSG_erase_done \<and>
           dlc (Message RSP_ID [0x00, 0x00, 0x01]) \<noteq> calcsize (rx_format MSG_erase_done)"
    by (simp add: Message_def calcsize_def)
  have c: "well_sized MSG_erase_done (Message RSP_ID [0x00, 0x00, 0x00, 0x02]) \<and>
           flagged MSG_erase_done 2 \<and>
           fields MSG_erase_done (Message RSP_ID [0x00, 0x00, 0x00, 0x02]) ! 2
             \<noteq> expected MSG_erase_done 2 \<and>
           (\<forall>j < 2. flagged MSG_erase_done j \<longrightarrow>
              fields MSG_erase_done (Message RSP_ID [0x00, 0x00, 0x00, 0x02]) ! j
                = expected MSG_erase_done j)"
    by (simp add: flagged_simps well_sized_def fields_def expected_def Message_def calcsize_def
          be_int_def)
  have d: "well_sized MSG_erase_done (Message RSP_ID [0x00, 0x00, 0x05, 0x01]) \<and>
           (\<forall>j. flagged MSG_erase_done j \<longrightarrow>
              fields MSG_erase_done (Message RSP_ID [0x00, 0x00, 0x05, 0x01]) ! j
                = expected MSG_erase_done j)"
    by (simp add: flagged_simps well_sized_def fields_def expected_def Message_def calcsize_def
          be_int_def)
  have d': "\<not> status_ok MSG_erase_done
              (fields MSG_erase_done (Message RSP_ID [0x00, 0x00, 0x05, 0x01]))"
    by (simp add: status_ok_def fields_def Message_def be_int_def)
  have e: "accepts MSG_selected selected_1 \<and>
           well_sized MSG_selected (Message RSP_ID [0x21, 0x10, 1, 2, 3, 5, 0, 7]) \<and>
           status_ok MSG_selected (fields MSG_selected (Message RSP_ID [0x21, 0x10, 1, 2, 3, 5, 0, 7])) \<and>
           (\<forall>j. flagged MSG_selected j \<longrightarrow>
              fields MSG_selected (Message RSP_ID [0x21, 0x10, 1, 2, 3, 5, 0, 7]) ! j
                = fields MSG_selected selected_1 ! j)"
    by (simp add: flagged_simps accepts_def rx_defs selected_1_def status_ok_def
          well_sized_def fields_def Message_def id_defs)
  have e': "fields MSG_selected (Message RSP_ID [0x21, 0x10, 1, 2, 3, 5, 0, 7])
              = [VInt 0x2110, VInt 0x01020305, VInt 7]"
    by (simp add: fields_def Message_def be_int_def)
  from rx_init_checks [where raw = "Message ACK_ID [0x00, 0x00, 0x00, 0x01]" and k = MSG_erase_done] a
  have 1: "rx_init MSG_erase_done (Message ACK_ID [0x00, 0x00, 0x00, 0x01])
             = Inl (MessageError Check_id)"
    by blast
  from rx_init_checks [where raw = "Message RSP_ID [0x00, 0x00, 0x01]" and k = MSG_erase_done] b
  have 2: "rx_init MSG_erase_done (Message RSP_ID [0x00, 0x00, 0x01])
             = Inl (MessageError Check_length)"
    by blast
  from rx_init_checks [where raw = "Message RSP_ID [0x00, 0x00, 0x00, 0x02]" and k = MSG_erase_done
         and i = 2] c
  have 3: "rx_init MSG_erase_done (Message RSP_ID [0x00, 0x00, 0x00, 0x02])
             = Inl (MessageError (Check_field 2))"
    by blast
  from rx_init_checks [where raw = "Message RSP_ID [0x00, 0x00, 0x05, 0x01]" and k = MSG_erase_done] d d'
  have 4: "rx_init MSG_erase_done (Message RSP_ID [0x00, 0x00, 0x05, 0x01])
             = Inl (MessageError Check_status)"
    by simp
  from rx_init_checks [where k = MSG_selected and raw = selected_1
         and raw' = "Message RSP_ID [0x21, 0x10, 1, 2, 3, 5, 0, 7]"] e e'
  have 5: "rx_init MSG_selected (Message RSP_ID [0x21, 0x10, 1, 2, 3, 5, 0, 7])
             = Inr [VInt 0x2110, VInt 0x01020305, VInt 7]"
    by simp
  from 1 2 3 4 5 show ?thesis by blast
qed

subsection \<open>C6: the baudrate parameter\<close>

text \<open>
  Claim C6 (the code departs from it). The claim: \<^verbatim>\<open>set_parameter("BaudrateBootloader1", 500)\<close>
  writes the code FC 03 to the EEPROM offset of the parameter. The code, with a module
  that acknowledges every step: the select is sent and answered, then \<^verbatim>\<open>struct.error\<close>
  is raised while the write-enable command is built (the defect of C2), and no EEPROM-ID
  frame is sent.
\<close>

theorem set_baudrate_writes_nothing:
  "set_parameter module_1 ''BaudrateBootloader1'' (PyInt 500)
     (delivering [selected_1, eeprom_open_ok, eeprom_write_ok, eeprom_closed_ok])
   = (Inl StructError,
      \<lparr>bus = map Arrives [eeprom_open_ok, eeprom_write_ok, eeprom_closed_ok],
       clock = [],
       log = [Sent select_1, Received (Some selected_1)]\<rparr>)"
  by (simp add: set_parameter_def set_parameter_with_def PARAMETER_WRITE_OK_def u_parameter_def PARAMETER_MAP_def
        BAUD_MAP_def u_write_eeprom_def u_select_def example_defs tx_defs rx_defs io_defs id_defs)

subsection \<open>C7: reading a string parameter\<close>

lemma parameter_loop_mem:
  "parameter_loop ps offset name = Inr (address, f) \<Longrightarrow> (f, name) \<in> set ps"
  by (induction ps offset name rule: parameter_loop.induct) (auto split: if_splits)

lemma string_formats:
  assumes "u_parameter name = Inr (address, f)" and "ends_with_s f"
  shows "\<exists>n. f = [Fmt_s n]"
proof -
  have "(f, name) \<in> set PARAMETER_MAP"
    using assms(1) by (simp add: u_parameter_def parameter_loop_mem)
  moreover have "\<forall>(g, x) \<in> set PARAMETER_MAP. ends_with_s g \<longrightarrow> (\<exists>n. g = [Fmt_s n])"
    by (simp add: PARAMETER_MAP_def)
  ultimately show ?thesis using assms(2) by blast
qed

text \<open>
  The answer of a module to the read of \<^verbatim>\<open>OrderNumber\<close> (8 bytes at offset 52) is an
  \<^verbatim>\<open>X\<close> and seven NUL bytes; \<^verbatim>\<open>parameter\<close> returns a string of eight characters, not the
  string without the trailing NUL characters.
\<close>

theorem parameter_returns_trailing_nul:
  "parameter module_1 ''OrderNumber''
     (delivering [selected_1, Message DATA_ID [0x58, 0, 0, 0, 0, 0, 0, 0]])
   = (Inr (PyStr [0x58, 0, 0, 0, 0, 0, 0, 0]),
      \<lparr>bus = [], clock = [],
       log = [Sent select_1, Received (Some selected_1),
              Sent (Message CMD_ID [0x20, 0x03, 0, 52, 8]),
              Received (Some (Message DATA_ID [0x58, 0, 0, 0, 0, 0, 0, 0]))]\<rparr>) \<and>
   strip_trailing_nul [0x58, 0, 0, 0, 0, 0, 0, 0] = [0x58]"
  by (simp add: parameter_def u_parameter_def PARAMETER_MAP_def decode_ascii_def
        u_read_eeprom_def read_loop.simps u_select_def strip_trailing_nul_def
        example_defs tx_defs rx_defs io_defs id_defs)

text \<open>
  Claim C7, amended. For every parameter whose format ends in \<^verbatim>\<open>s\<close>, \<^verbatim>\<open>parameter\<close> reads
  the parameter's range from the EEPROM and returns the bytes read, all of them, decoded as
  ASCII: every byte is a character of the result, the NUL bytes too. It raises what the
  read raises, \<^verbatim>\<open>struct.error\<close> when the read returns another number of bytes than the
  width, and \<^verbatim>\<open>UnicodeDecodeError\<close> when a byte is not ASCII.
\<close>

theorem parameter_string_keeps_nul:
  assumes "u_parameter name = Inr (address, f)" and "ends_with_s f"
  shows "parameter m name w =
           (case u_read_eeprom m (int address) (int (calcsize f)) w of
              (Inl e, w') \<Rightarrow> (Inl e, w')
            | (Inr bs, w') \<Rightarrow>
                if length bs \<noteq> calcsize f then (Inl StructError, w')
                else if \<exists>b \<in> set bs. 0x80 \<le> b then (Inl UnicodeDecodeError, w')
                else (Inr (PyStr (map unat bs)), w'))"
proof -
  from string_formats [OF assms] obtain n where f: "f = [Fmt_s n]" ..
  show ?thesis
    using assms(1) unfolding f
    by (auto simp: parameter_def unpack_def decode_ascii_def calcsize_def not_le
          split: prod.splits sum.splits)
qed

theorem parameter_string_keeps_nul_witness:
  "u_parameter ''TestDate'' = Inr (60, [Fmt_s 8]) \<and>
   parameter module_1 ''TestDate''
     (delivering [selected_1, Message DATA_ID [0x32, 0x34, 0x30, 0x31, 0x30, 0x31, 0, 0]])
   = (Inr (PyStr [0x32, 0x34, 0x30, 0x31, 0x30, 0x31, 0, 0]),
      \<lparr>bus = [], clock = [],
       log = [Sent select_1, Received (Some selected_1),
              Sent (Message CMD_ID [0x20, 0x03, 0, 60, 8]),
              Received (Some (Message DATA_ID [0x32, 0x34, 0x30, 0x31, 0x30, 0x31, 0, 0]))]\<rparr>)"
proof -
  have p: "u_parameter ''TestDate'' = Inr (60, [Fmt_s 8])"
    by (simp add: u_parameter_def PARAMETER_MAP_def calcsize_def)
  have s: "ends_with_s [Fmt_s 8]"
    by simp
  have r: "u_read_eeprom module_1 (int 60) (int (calcsize [Fmt_s 8]))
             (delivering [selected_1, Message DATA_ID [0x32, 0x34, 0x30, 0x31, 0x30, 0x31, 0, 0]])
           = (Inr [0x32, 0x34, 0x30, 0x31, 0x30, 0x31, 0, 0],
              \<lparr>bus = [], clock = [],
               log = [Sent select_1, Received (Some selected_1),
                      Sent (Message CMD_ID [0x20, 0x03, 0, 60, 8]),
                      Received (Some (Message DATA_ID
                        [0x32, 0x34, 0x30, 0x31, 0x30, 0x31, 0, 0]))]\<rparr>)"
    by (simp add: u_read_eeprom_def read_loop.simps u_select_def
          example_defs tx_defs rx_defs io_defs id_defs)
  from parameter_string_keeps_nul [OF p s, of module_1
         "delivering [selected_1, Message DATA_ID [0x32, 0x34, 0x30, 0x31, 0x30, 0x31, 0, 0]]"]
  have "parameter module_1 ''TestDate''
     (delivering [selected_1, Message DATA_ID [0x32, 0x34, 0x30, 0x31, 0x30, 0x31, 0, 0]])
   = (Inr (PyStr [0x32, 0x34, 0x30, 0x31, 0x30, 0x31, 0, 0]),
      \<lparr>bus = [], clock = [],
       log = [Sent select_1, Received (Some selected_1),
              Sent (Message CMD_ID [0x20, 0x03, 0, 60, 8]),
              Received (Some (Message DATA_ID [0x32, 0x34, 0x30, 0x31, 0x30, 0x31, 0, 0]))]\<rparr>)"
    unfolding r by (simp add: calcsize_def)
  with p show ?thesis by blast
qed

subsection \<open>C8: writing a string parameter\<close>

lemma pad_nul_eq: "pad_nul v fmtlen = v @ replicate (fmtlen - length v) 0"
proof (induction v fmtlen rule: pad_nul.induct)
  case (1 v fmtlen)
  show ?case
  proof (cases "length v < fmtlen")
    case True
    then have "fmtlen - length v = Suc (fmtlen - length (v @ [0]))"
      by simp
    then have "v @ replicate (fmtlen - length v) 0
                 = (v @ [0]) @ replicate (fmtlen - length (v @ [0])) 0"
      by (simp only: replicate_Suc append_assoc append_Cons append_Nil)
    with "1.IH" [OF True] True show ?thesis
      by (simp add: pad_nul.simps [of v fmtlen])
  next
    case False
    then show ?thesis by (simp add: pad_nul.simps [of v fmtlen])
  qed
qed

lemma encode_ascii_padded:
  "encode_ascii (v @ replicate k 0) =
     (if \<exists>c \<in> set v. 0x80 \<le> c then Inl UnicodeEncodeError
      else Inr (map of_nat v @ replicate k 0))"
  by (auto simp: encode_ascii_def not_le)

lemma utf8_length_ascii: "\<forall>c \<in> set v. c < 0x80 \<Longrightarrow> utf8_length v = length v"
  by (induction v) (auto simp: utf8_length_def)

lemma u_parameter_strings:
  "u_parameter ''SoftwareVersion'' = Inr (107, [Fmt_s 20])"
  "u_parameter ''ModuleName'' = Inr (127, [Fmt_s 30])"
  by (simp_all add: u_parameter_def PARAMETER_MAP_def calcsize_def)

text \<open>
  The string of the one character U+00E9 has a UTF-8 encoding of two bytes, within the width
  of \<^verbatim>\<open>SoftwareVersion\<close>, and \<^verbatim>\<open>set_parameter\<close> raises \<^verbatim>\<open>UnicodeEncodeError\<close>
  before it sends a frame, whatever the module would answer.
\<close>

theorem set_parameter_rejects_non_ascii:
  "utf8_length [0xe9] = 2 \<and>
   set_parameter module_1 ''SoftwareVersion'' (PyStr [0xe9])
     (delivering [selected_1, eeprom_open_ok, eeprom_write_ok, eeprom_write_ok,
                  eeprom_write_ok, eeprom_write_ok, eeprom_closed_ok])
   = (Inl UnicodeEncodeError,
      delivering [selected_1, eeprom_open_ok, eeprom_write_ok, eeprom_write_ok,
                  eeprom_write_ok, eeprom_write_ok, eeprom_closed_ok])"
  by (simp add: utf8_length_def set_parameter_def set_parameter_with_def PARAMETER_WRITE_OK_def u_parameter_strings
        pad_nul_eq encode_ascii_def calcsize_def)

text \<open>
  Claim C8, amended. For \<^verbatim>\<open>SoftwareVersion\<close> (width 20, offset 107) and \<^verbatim>\<open>ModuleName\<close>
  (width 30, offset 127), \<^verbatim>\<open>set_parameter\<close> with a string \<open>v\<close> raises \<^verbatim>\<open>RuntimeError\<close>
  and sends nothing when \<open>v\<close> has more characters than the width; raises
  \<^verbatim>\<open>UnicodeEncodeError\<close> and sends nothing when \<open>v\<close> holds a character that is not ASCII;
  and otherwise calls its write method once, with the parameter's offset and the bytes of
  \<open>v\<close> padded on the right with NUL bytes to the width, and returns what the method
  returns: this for every method \<open>write_eeprom\<close> in the place of \<^verbatim>\<open>_write_eeprom\<close>. In
  particular \<^verbatim>\<open>Module.set_parameter\<close> raises and sends nothing whenever the UTF-8 encoding
  of \<open>v\<close> is longer than the width.
\<close>

theorem set_string_parameter:
  assumes "name = ''SoftwareVersion'' \<and> address = 107 \<and> n = 20 \<or>
           name = ''ModuleName'' \<and> address = 127 \<and> n = 30"
  shows "set_parameter_with write_eeprom m name (PyStr v) w =
           (if n < length v then (Inl RuntimeError, w)
            else if \<exists>c \<in> set v. 0x80 \<le> c then (Inl UnicodeEncodeError, w)
            else write_eeprom m address (map of_nat v @ replicate (n - length v) 0) w) \<and>
         (n < utf8_length v \<longrightarrow> (\<exists>e. set_parameter m name (PyStr v) w = (Inl e, w)))"
proof -
  have eq: "set_parameter_with wr m name (PyStr v) w =
           (if n < length v then (Inl RuntimeError, w)
            else if \<exists>c \<in> set v. 0x80 \<le> c then (Inl UnicodeEncodeError, w)
            else wr m address (map of_nat v @ replicate (n - length v) 0) w)" for wr
    using assms
    by (auto simp: set_parameter_with_def PARAMETER_WRITE_OK_def u_parameter_strings
          pad_nul_eq encode_ascii_padded calcsize_def)
  have "\<exists>e. set_parameter m name (PyStr v) w = (Inl e, w)" if long: "n < utf8_length v"
  proof (cases "n < length v")
    case True
    then show ?thesis using eq [of u_write_eeprom] by (simp add: set_parameter_def)
  next
    case False
    have "\<exists>c \<in> set v. 0x80 \<le> c"
    proof (rule ccontr)
      assume "\<not> (\<exists>c \<in> set v. 0x80 \<le> c)"
      then have "\<forall>c \<in> set v. c < 0x80" by (auto simp: not_le)
      then have "utf8_length v = length v" by (rule utf8_length_ascii)
      with long False show False by simp
    qed
    with False show ?thesis using eq [of u_write_eeprom] by (simp add: set_parameter_def)
  qed
  with eq [of write_eeprom] show ?thesis by blast
qed

text \<open>
  The theorem at \<^verbatim>\<open>ModuleName\<close> and the string \<^verbatim>\<open>'X'\<close>, with the write loop of
  \<^verbatim>\<open>_write_eeprom\<close> as the method: the loop gets the offset 127 and the 30 bytes, and sends
  them in five frames. And at strings of 21 characters and of 11 characters that are not
  ASCII.
\<close>

theorem set_string_parameter_witness:
  "set_parameter_with (\<lambda>m. write_loop) module_1 ''ModuleName'' (PyStr [0x58])
     (delivering [eeprom_write_ok, eeprom_write_ok, eeprom_write_ok, eeprom_write_ok,
                  eeprom_write_ok])
     = (Inr (),
        \<lparr>bus = [], clock = [],
         log = [Sent (Message EEPROM_ID [0, 127, 0x58, 0, 0, 0, 0, 0]),
                Received (Some eeprom_write_ok),
                Sent (Message EEPROM_ID [0, 127, 0, 0, 0, 0, 0, 0]),
                Received (Some eeprom_write_ok),
                Sent (Message EEPROM_ID [0, 127, 0, 0, 0, 0, 0, 0]),
                Received (Some eeprom_write_ok),
                Sent (Message EEPROM_ID [0, 127, 0, 0, 0, 0, 0, 0]),
                Received (Some eeprom_write_ok),
                Sent (Message EEPROM_ID [0, 127, 0, 0, 0, 0, 0, 0]),
                Received (Some eeprom_write_ok)]\<rparr>) \<and>
   set_parameter_with u_write_eeprom module_1 ''SoftwareVersion'' (PyStr (replicate 21 0x41))
     (delivering [selected_1])
     = (Inl RuntimeError, delivering [selected_1]) \<and>
   utf8_length (replicate 11 0xe9) = 22 \<and>
   (\<exists>e. set_parameter module_1 ''SoftwareVersion'' (PyStr (replicate 11 0xe9))
           (delivering [selected_1]) = (Inl e, delivering [selected_1]))"
proof -
  have a: "''ModuleName'' = ''SoftwareVersion'' \<and> (127::int) = 107 \<and> (30::nat) = 20 \<or>
           ''ModuleName'' = ''ModuleName'' \<and> (127::int) = 127 \<and> (30::nat) = 30"
    by simp
  have b: "''SoftwareVersion'' = ''SoftwareVersion'' \<and> (107::int) = 107 \<and> (20::nat) = 20 \<or>
           ''SoftwareVersion'' = ''ModuleName'' \<and> (107::int) = 127 \<and> (20::nat) = 30"
    by simp
  have u: "utf8_length (replicate 11 0xe9) = 22"
    by (simp add: utf8_length_def eval_nat_numeral)
  have loop: "write_loop 127
      [0x58, 0, 0, 0, 0, 0, 0, 0, 0, 0, 0, 0, 0, 0, 0, 0, 0, 0, 0, 0, 0, 0, 0, 0, 0, 0, 0, 0, 0, 0]
      (delivering [eeprom_write_ok, eeprom_write_ok, eeprom_write_ok, eeprom_write_ok,
                   eeprom_write_ok])
     = (Inr (),
        \<lparr>bus = [], clock = [],
         log = [Sent (Message EEPROM_ID [0, 127, 0x58, 0, 0, 0, 0, 0]),
                Received (Some eeprom_write_ok),
                Sent (Message EEPROM_ID [0, 127, 0, 0, 0, 0, 0, 0]),
                Received (Some eeprom_write_ok),
                Sent (Message EEPROM_ID [0, 127, 0, 0, 0, 0, 0, 0]),
                Received (Some eeprom_write_ok),
                Sent (Message EEPROM_ID [0, 127, 0, 0, 0, 0, 0, 0]),
                Received (Some eeprom_write_ok),
                Sent (Message EEPROM_ID [0, 127, 0, 0, 0, 0, 0, 0]),
                Received (Some eeprom_write_ok)]\<rparr>)"
    by (simp add: write_loop.simps example_defs tx_defs rx_defs io_defs id_defs)
  from set_string_parameter [OF a, of "\<lambda>m. write_loop" module_1 "[0x58]"
         "delivering [eeprom_write_ok, eeprom_write_ok, eeprom_write_ok, eeprom_write_ok,
                      eeprom_write_ok]"]
  have 1: "set_parameter_with (\<lambda>m. write_loop) module_1 ''ModuleName'' (PyStr [0x58])
     (delivering [eeprom_write_ok, eeprom_write_ok, eeprom_write_ok, eeprom_write_ok,
                  eeprom_write_ok])
     = write_loop 127
      [0x58, 0, 0, 0, 0, 0, 0, 0, 0, 0, 0, 0, 0, 0, 0, 0, 0, 0, 0, 0, 0, 0, 0, 0, 0, 0, 0, 0, 0, 0]
      (delivering [eeprom_write_ok, eeprom_write_ok, eeprom_write_ok, eeprom_write_ok,
                   eeprom_write_ok])"
    by (simp add: eval_nat_numeral)
  from set_string_parameter [OF b, of u_write_eeprom module_1 "replicate 21 0x41"
         "delivering [selected_1]"]
  have 2: "set_parameter_with u_write_eeprom module_1 ''SoftwareVersion''
             (PyStr (replicate 21 0x41)) (delivering [selected_1])
           = (Inl RuntimeError, delivering [selected_1])"
    by simp
  from set_string_parameter [OF b, of u_write_eeprom module_1 "replicate 11 0xe9"
         "delivering [selected_1]"] u
  have 3: "\<exists>e. set_parameter module_1 ''SoftwareVersion'' (PyStr (replicate 11 0xe9))
           (delivering [selected_1]) = (Inl e, delivering [selected_1])"
    by simp
  from 1 [unfolded loop] 2 u 3 show ?thesis by blast
qed

subsection \<open>C9: upload enters flash mode, erases, then programs\<close>
















subsection \<open>C10: scan and repeated ACKs\<close>

lemma received_acks_append: "received_acks (xs @ ys) = received_acks xs @ received_acks ys"
  by (induction xs rule: received_acks.induct) (auto split: sum.splits)

lemma scan_loop_table:
  assumes "scan_loop modules w = (Inr tbl, w')"
  shows "\<exists>es. log w' = log w @ es \<and>
           tbl = fold (\<lambda>a. AList.update (module_id a) (entry_of a)) (received_acks es) modules"
  using assms
proof (induction modules w arbitrary: tbl w' rule: scan_loop.induct)
  case (1 modules w)
  obtain r w1 where rc: "recv w = (r, w1)" by (cases "recv w")
  note log1 = recv_log [OF rc]
  show ?case
  proof (cases r)
    case (Some rsp)
    with "1.prems" rc obtain a where
      a: "ack_init rsp = Inr a" and
      rest: "scan_loop (AList.update (module_id a)
               \<lparr>entry_status = status a, entry_reason = reason a, entry_sw_ver = sw_version a\<rparr>
               modules) w1 = (Inr tbl, w')"
      by (auto simp: scan_loop.simps [of modules w] split: sum.splits)
    from "1.IH"(2) [OF rc [symmetric] Some a rest] obtain es where
      es: "log w' = log w1 @ es"
          "tbl = fold (\<lambda>a. AList.update (module_id a) (entry_of a)) (received_acks es)
                   (AList.update (module_id a)
                      \<lparr>entry_status = status a, entry_reason = reason a, entry_sw_ver = sw_version a\<rparr>
                      modules)"
      by blast
    have "log w' = log w @ (Received (Some rsp) # es)"
      using es(1) log1 Some by simp
    moreover have "tbl = fold (\<lambda>a. AList.update (module_id a) (entry_of a))
                           (received_acks (Received (Some rsp) # es)) modules"
      using es(2) a by (simp add: entry_of_def)
    ultimately show ?thesis by blast
  next
    case None
    show ?thesis
    proof (cases "clock w1")
      case Nil
      with "1.prems" rc None have "tbl = modules" "w' = w1"
        by (auto simp: scan_loop.simps [of modules w])
      with log1 None show ?thesis
        by (intro exI [of _ "[Received None]"]) simp
    next
      case (Cons b c)
      show ?thesis
      proof (cases b)
        case False
        with "1.prems" rc None Cons have "tbl = modules" "w' = w1\<lparr>clock := c\<rparr>"
          by (auto simp: scan_loop.simps [of modules w])
        with log1 None show ?thesis
          by (intro exI [of _ "[Received None]"]) simp
      next
        case True
        with "1.prems" rc None Cons obtain msg where
          msg: "MSG_ping = Inr msg" and
          rest: "scan_loop modules (send msg (w1\<lparr>clock := c\<rparr>)) = (Inr tbl, w')"
          by (auto simp: scan_loop.simps [of modules w] split: sum.splits)
        have bT: "b = True" using True by simp
        from "1.IH"(1) [OF rc [symmetric] None Cons bT msg rest] obtain es where
          es: "log w' = log (send msg (w1\<lparr>clock := c\<rparr>)) @ es"
              "tbl = fold (\<lambda>a. AList.update (module_id a) (entry_of a)) (received_acks es) modules"
          by blast
        have "log w' = log w @ (Received None # Sent msg # es)"
          using es(1) log1 None by (simp add: send_def)
        moreover have "tbl = fold (\<lambda>a. AList.update (module_id a) (entry_of a))
                           (received_acks (Received None # Sent msg # es)) modules"
          using es(2) by simp
        ultimately show ?thesis by blast
      qed
    qed
  qed
qed

lemma fold_update_distinct:
  "distinct (map fst tbl) \<Longrightarrow>
   distinct (map fst (fold (\<lambda>a. AList.update (module_id a) (entry_of a)) acks tbl))"
  by (induction acks arbitrary: tbl) (simp_all add: distinct_update)

lemma fold_update_lookup:
  "map_of (fold (\<lambda>a. AList.update (module_id a) (entry_of a)) acks tbl) k =
     (case filter (\<lambda>a. module_id a = k) acks of
        [] \<Rightarrow> map_of tbl k
      | a # as \<Rightarrow> Some (entry_of (last (a # as))))"
proof (induction acks arbitrary: tbl)
  case Nil
  show ?case by simp
next
  case (Cons a acks)
  show ?case
    by (simp add: Cons.IH update_conv' split: list.splits)
qed

text \<open>
  Claim C10. The table that \<^verbatim>\<open>scan\<close> returns has one entry per module ID (its keys are
  distinct), and the entry of an ID is the one made from the last ACK with this ID that
  was received during the scan; an ID with no ACK has no entry.
\<close>

theorem scan_keeps_latest_ack:
  assumes "scan w = (Inr tbl, w')"
  shows "\<exists>es. log w' = log w @ es \<and>
           distinct (map fst tbl) \<and>
           (\<forall>k. map_of tbl k =
                  (case filter (\<lambda>a. module_id a = k) (received_acks es) of
                     [] \<Rightarrow> None
                   | a # as \<Rightarrow> Some (entry_of (last (a # as)))))"
proof -
  from assms obtain msg where
    msg: "MSG_ping = Inr msg" and loop: "scan_loop [] (send msg w) = (Inr tbl, w')"
    by (auto simp: scan_def split: sum.splits)
  from scan_loop_table [OF loop] obtain es where
    es: "log w' = log (send msg w) @ es"
        "tbl = fold (\<lambda>a. AList.update (module_id a) (entry_of a)) (received_acks es) []"
    by blast
  have "log w' = log w @ (Sent msg # es)"
    using es(1) by (simp add: send_def)
  moreover have "received_acks (Sent msg # es) = received_acks es" by simp
  moreover have "distinct (map fst tbl)"
    unfolding es(2) by (rule fold_update_distinct) simp
  moreover have "map_of tbl k =
                  (case filter (\<lambda>a. module_id a = k) (received_acks es) of
                     [] \<Rightarrow> None
                   | a # as \<Rightarrow> Some (entry_of (last (a # as))))" for k
    unfolding es(2) by (simp add: fold_update_lookup split: list.splits)
  ultimately show ?thesis by metis
qed

theorem scan_keeps_latest_ack_witness:
  "scan (delivering [Message ACK_ID [0x00, 1, 2, 3, 4, 0x04, 0, 7],
                     Message ACK_ID [0x01, 1, 2, 3, 4, 0x00, 0, 9]])
   = (Inr [(VInt 0x01020304,
            \<lparr>entry_status = ''OK'', entry_reason = ''reset'', entry_sw_ver = VInt 9\<rparr>)],
      \<lparr>bus = [], clock = [],
       log = [Sent (Message CMD_ID [0, 0]),
              Received (Some (Message ACK_ID [0x00, 1, 2, 3, 4, 0x04, 0, 7])),
              Received (Some (Message ACK_ID [0x01, 1, 2, 3, 4, 0x00, 0, 9])),
              Received None]\<rparr>)
   \<and> (\<exists>es. log \<lparr>bus = [], clock = [],
               log = [Sent (Message CMD_ID [0, 0]),
                      Received (Some (Message ACK_ID [0x00, 1, 2, 3, 4, 0x04, 0, 7])),
                      Received (Some (Message ACK_ID [0x01, 1, 2, 3, 4, 0x00, 0, 9])),
                      Received None]\<rparr>
            = log (delivering [Message ACK_ID [0x00, 1, 2, 3, 4, 0x04, 0, 7],
                               Message ACK_ID [0x01, 1, 2, 3, 4, 0x00, 0, 9]]) @ es
          \<and> distinct (map fst [(VInt 0x01020304,
                 \<lparr>entry_status = ''OK'', entry_reason = ''reset'', entry_sw_ver = VInt 9\<rparr>)])
          \<and> (\<forall>k. map_of [(VInt 0x01020304,
                 \<lparr>entry_status = ''OK'', entry_reason = ''reset'', entry_sw_ver = VInt 9\<rparr>)] k =
                  (case filter (\<lambda>a. module_id a = k) (received_acks es) of
                     [] \<Rightarrow> None
                   | a # as \<Rightarrow> Some (entry_of (last (a # as))))))"
proof -
  have run:
    "scan (delivering [Message ACK_ID [0x00, 1, 2, 3, 4, 0x04, 0, 7],
                       Message ACK_ID [0x01, 1, 2, 3, 4, 0x00, 0, 9]])
     = (Inr [(VInt 0x01020304,
              \<lparr>entry_status = ''OK'', entry_reason = ''reset'', entry_sw_ver = VInt 9\<rparr>)],
        \<lparr>bus = [], clock = [],
         log = [Sent (Message CMD_ID [0, 0]),
                Received (Some (Message ACK_ID [0x00, 1, 2, 3, 4, 0x04, 0, 7])),
                Received (Some (Message ACK_ID [0x01, 1, 2, 3, 4, 0x00, 0, 9])),
                Received None]\<rparr>)"
    by (simp add: scan_def scan_loop.simps REASON_MAP_def STATUS_MAP_def example_defs
          tx_defs rx_defs io_defs id_defs)
  from scan_keeps_latest_ack [OF run] run show ?thesis
    by (rule_tac conjI)
qed

end
